theory Spec2Isabelle
  imports Main "HOL-Library.AList" "HOL-Library.Code_Target_Nat"
begin

section \<open>Legacy-workbook migration: opportunity dates, merge and phone numbers\<close>

text \<open>
  A shallow embedding of \<^verbatim>\<open>migrate_data.py\<close>: \<^verbatim>\<open>_format_phone\<close>,
  \<^verbatim>\<open>get_legacy_opportunities\<close> and \<^verbatim>\<open>generate_migrated_opportunities\<close>.

  Conventions of the embedding.
  \<^item> Every raise and every \<^verbatim>\<open>sys.exit\<close> of the source is a value \<open>Inl e\<close> of the result.
  \<^item> \<^verbatim>\<open>datetime.datetime.now()\<close> is the parameter \<open>now\<close>: all readings of the clock
    during one call are taken to return the same instant.
  \<^item> \<^verbatim>\<open>uuid.uuid4()\<close> is a parameter \<open>uuid4 :: nat \<Rightarrow> string\<close> with a counter of the
    identifiers drawn so far.
  \<^item> Strings are ASCII: \<^verbatim>\<open>\d\<close> and \<^verbatim>\<open>str.isdigit\<close> are the ten ASCII digits.
  \<^item> \<^verbatim>\<open>strftime('%#m/%#d/%Y')\<close> is the Windows C runtime's: \<^verbatim>\<open>#\<close> removes the leading
    zero of month and day, the year has four digits (the source's comment: "2024-05-05
    00:00:00" becomes "5/5/2024").
  \<^item> The header row of a sheet holds strings only: \<^verbatim>\<open>get_all_sheets_records\<close> builds it
    with \<^verbatim>\<open>str(c)\<close>.
\<close>

subsection \<open>Errors\<close>

text \<open>
  \<open>SystemExit ls\<close> is a call of \<^verbatim>\<open>sys.exit\<close>; \<open>ls\<close> are the diagnostic lines the source
  writes with the exit (the argument of \<^verbatim>\<open>sys.exit\<close>, or the lines printed right before
  \<^verbatim>\<open>sys.exit()\<close>).
\<close>

datatype error =
    KeyError string
  | IndexError
  | ValueError
  | TypeError
  | OverflowError
  | SystemExit "string list"

subsection \<open>Characters, digits and splitting\<close>

definition is_digit :: "char \<Rightarrow> bool" where
  "is_digit c = (c \<in> set ''0123456789'')"

definition is_space :: "char \<Rightarrow> bool" where
  \<comment> \<open>The ASCII characters for which \<^verbatim>\<open>str.isspace\<close> holds.\<close>
  "is_space c = (c \<in> set [CHR 0x09, CHR 0x0A, CHR 0x0B, CHR 0x0C, CHR 0x0D,
                            CHR 0x1C, CHR 0x1D, CHR 0x1E, CHR 0x1F, CHR '' ''])"

definition digit_val :: "char \<Rightarrow> nat" where
  \<comment> \<open>The value of a digit; 0 for any other character.\<close>
  "digit_val c =
     (if is_digit c then length (takeWhile (\<lambda>x. x \<noteq> c) ''0123456789'') else 0)"

definition digit_char :: "nat \<Rightarrow> char" where
  \<comment> \<open>The digit of a number below ten.\<close>
  "digit_char n = ''0123456789'' ! min n 9"

definition nat_of_digits :: "string \<Rightarrow> nat" where
  \<comment> \<open>\<^verbatim>\<open>int(s)\<close> on a string of digits (a leading blank counts for nothing).\<close>
  "nat_of_digits s = foldl (\<lambda>a c. 10 * a + digit_val c) 0 s"

definition digits_len :: "nat \<Rightarrow> nat \<Rightarrow> string \<Rightarrow> bool" where
  \<comment> \<open>\<^verbatim>\<open>\d{lo,hi}\<close> matching the whole of \<open>s\<close>.\<close>
  "digits_len lo hi s = (list_all is_digit s \<and> lo \<le> length s \<and> length s \<le> hi)"

fun split_on :: "char \<Rightarrow> string \<Rightarrow> string list" where
  \<comment> \<open>\<^verbatim>\<open>s.split(c)\<close> for a one-character separator.\<close>
  "split_on c [] = [[]]"
| "split_on c (x # xs) =
     (if x = c then [] # split_on c xs
      else (case split_on c xs of [] \<Rightarrow> [[x]] | w # ws \<Rightarrow> (x # w) # ws))"

definition chomp :: "string \<Rightarrow> string" where
  \<comment> \<open>\<^verbatim>\<open>$\<close> of a Python regular expression also matches before one final newline.\<close>
  "chomp s = (if s \<noteq> [] \<and> last s = CHR 0x0A then butlast s else s)"

definition strip :: "string \<Rightarrow> string" where
  \<comment> \<open>\<^verbatim>\<open>s.strip()\<close>.\<close>
  "strip s = rev (dropWhile is_space (rev (dropWhile is_space s)))"

fun starts_with :: "string \<Rightarrow> string \<Rightarrow> bool" where
  \<comment> \<open>\<open>starts_with p s\<close>: \<^verbatim>\<open>s.startswith(p)\<close>.\<close>
  "starts_with [] s = True"
| "starts_with (p # ps) [] = False"
| "starts_with (p # ps) (x # xs) = (p = x \<and> starts_with ps xs)"

fun str_contains :: "string \<Rightarrow> string \<Rightarrow> bool" where
  \<comment> \<open>\<open>str_contains p s\<close>: \<open>p\<close> occurs in \<open>s\<close>. This is \<^verbatim>\<open>Series.str.contains(p)\<close> on one
      cell for a pattern of digits and slashes, which as a regular expression is literal.\<close>
  "str_contains p [] = (p = [])"
| "str_contains p (x # xs) = (starts_with p (x # xs) \<or> str_contains p xs)"

definition ends_with :: "string \<Rightarrow> string \<Rightarrow> bool" where
  \<comment> \<open>\<open>ends_with p s\<close>: \<^verbatim>\<open>s.endswith(p)\<close>.\<close>
  "ends_with p s = starts_with (rev p) (rev s)"

subsection \<open>Calendar dates (\<^verbatim>\<open>datetime.date\<close>, \<^verbatim>\<open>datetime.datetime\<close>)\<close>

record date =
  year :: nat
  month :: nat
  day :: nat

record datetime =
  dt_date :: date
  hour :: nat
  minute :: nat
  second :: nat
  microsecond :: nat

definition is_leap :: "nat \<Rightarrow> bool" where
  "is_leap y = (y mod 4 = 0 \<and> (y mod 100 \<noteq> 0 \<or> y mod 400 = 0))"

definition days_in_month :: "nat \<Rightarrow> nat \<Rightarrow> nat" where
  "days_in_month y m =
     (if m = 2 then (if is_leap y then 29 else 28)
      else if m = 4 \<or> m = 6 \<or> m = 9 \<or> m = 11 then 30 else 31)"

definition days_before_year :: "nat \<Rightarrow> nat" where
  "days_before_year y = (let y1 = y - 1 in y1 * 365 + y1 div 4 - y1 div 100 + y1 div 400)"

definition days_before_month :: "nat \<Rightarrow> nat \<Rightarrow> nat" where
  "days_before_month y m =
     (if m = 1 then 0 else if m = 2 then 31 else if m = 3 then 59 else if m = 4 then 90
      else if m = 5 then 120 else if m = 6 then 151 else if m = 7 then 181
      else if m = 8 then 212 else if m = 9 then 243 else if m = 10 then 273
      else if m = 11 then 304 else 334)
     + (if 2 < m \<and> is_leap y then 1 else 0)"

definition toordinal :: "date \<Rightarrow> nat" where
  "toordinal d = days_before_year (year d) + days_before_month (year d) (month d) + day d"

definition weekday :: "date \<Rightarrow> nat" where
  \<comment> \<open>Monday is 0, Saturday 5, Sunday 6.\<close>
  "weekday d = (toordinal d + 6) mod 7"

definition valid_date :: "date \<Rightarrow> bool" where
  "valid_date d = (1 \<le> year d \<and> year d \<le> 9999 \<and> 1 \<le> month d \<and> month d \<le> 12 \<and>
                   1 \<le> day d \<and> day d \<le> days_in_month (year d) (month d))"

definition mk_date :: "nat \<Rightarrow> nat \<Rightarrow> nat \<Rightarrow> error + date" where
  \<comment> \<open>The constructor \<^verbatim>\<open>date(y, m, d)\<close>, which checks its fields.\<close>
  "mk_date y m d =
     (let x = \<lparr>year = y, month = m, day = d\<rparr>
      in if valid_date x then Inr x else Inl ValueError)"

definition date_less :: "date \<Rightarrow> date \<Rightarrow> bool" where
  "date_less a b = (year a < year b \<or> (year a = year b \<and>
                     (month a < month b \<or> (month a = month b \<and> day a < day b))))"

definition date_le :: "date \<Rightarrow> date \<Rightarrow> bool" where
  "date_le a b = (date_less a b \<or> a = b)"

definition time_of :: "datetime \<Rightarrow> nat \<times> nat \<times> nat \<times> nat" where
  "time_of t = (hour t, minute t, second t, microsecond t)"

definition dt_less :: "datetime \<Rightarrow> datetime \<Rightarrow> bool" where
  \<comment> \<open>\<^verbatim>\<open>a < b\<close> on naive datetimes: the fields, compared in order.\<close>
  "dt_less a b = (date_less (dt_date a) (dt_date b) \<or>
                  (dt_date a = dt_date b \<and>
                   (hour a < hour b \<or> (hour a = hour b \<and>
                   (minute a < minute b \<or> (minute a = minute b \<and>
                   (second a < second b \<or> (second a = second b \<and>
                    microsecond a < microsecond b))))))))"

definition midnight :: "date \<Rightarrow> datetime" where
  \<comment> \<open>What \<^verbatim>\<open>strptime\<close> returns for a format without time fields.\<close>
  "midnight d = \<lparr>dt_date = d, hour = 0, minute = 0, second = 0, microsecond = 0\<rparr>"

definition next_day :: "date \<Rightarrow> date" where
  \<comment> \<open>\<^verbatim>\<open>d + timedelta(days=1)\<close> below the last day of year 9999.\<close>
  "next_day d =
     (if day d < days_in_month (year d) (month d) then d\<lparr>day := day d + 1\<rparr>
      else if month d < 12 then d\<lparr>month := month d + 1, day := 1\<rparr>
      else \<lparr>year = year d + 1, month = 1, day = 1\<rparr>)"

definition max_date :: date where
  "max_date = \<lparr>year = 9999, month = 12, day = 31\<rparr>"

subsection \<open>\<^verbatim>\<open>strftime\<close>\<close>

definition nopad :: "nat \<Rightarrow> string" where
  \<comment> \<open>\<^verbatim>\<open>%#m\<close>, \<^verbatim>\<open>%#d\<close>: a number below 100 without leading zero.\<close>
  "nopad n = (if n < 10 then [digit_char n] else [digit_char (n div 10), digit_char (n mod 10)])"

definition pad2 :: "nat \<Rightarrow> string" where
  "pad2 n = [digit_char (n div 10), digit_char (n mod 10)]"

definition pad4 :: "nat \<Rightarrow> string" where
  "pad4 n = [digit_char (n div 1000), digit_char (n div 100 mod 10),
             digit_char (n div 10 mod 10), digit_char (n mod 10)]"

definition strftime_mdY :: "date \<Rightarrow> string" where
  \<comment> \<open>\<^verbatim>\<open>strftime('%#m/%#d/%Y')\<close>\<close>
  "strftime_mdY d = nopad (month d) @ ''/'' @ nopad (day d) @ ''/'' @ pad4 (year d)"

definition strftime_Ymd :: "date \<Rightarrow> string" where
  \<comment> \<open>\<^verbatim>\<open>strftime('%Y-%m-%d')\<close>\<close>
  "strftime_Ymd d = pad4 (year d) @ ''-'' @ pad2 (month d) @ ''-'' @ pad2 (day d)"

definition strftime_YmdHMSz :: "datetime \<Rightarrow> string" where
  \<comment> \<open>\<^verbatim>\<open>strftime('%Y-%m-%d %H:%M:%S%z')\<close> of a naive datetime: \<^verbatim>\<open>%z\<close> is empty.\<close>
  "strftime_YmdHMSz t =
     strftime_Ymd (dt_date t) @ '' '' @ pad2 (hour t) @ '':'' @ pad2 (minute t) @ '':'' @
     pad2 (second t)"

subsection \<open>\<^verbatim>\<open>strptime\<close>\<close>

text \<open>
  The directives as CPython's \<^verbatim>\<open>_strptime\<close> compiles them:
  \<^verbatim>\<open>%m\<close> is \<^verbatim>\<open>1[0-2]|0[1-9]|[1-9]\<close>, \<^verbatim>\<open>%d\<close> is \<^verbatim>\<open>3[0-1]|[1-2]\d|0[1-9]|[1-9]| [1-9]\<close>,
  \<^verbatim>\<open>%Y\<close> is \<^verbatim>\<open>\d\d\d\d\<close>, \<^verbatim>\<open>%y\<close> is \<^verbatim>\<open>\d\d\<close>, \<^verbatim>\<open>%H\<close> is \<^verbatim>\<open>2[0-3]|[0-1]\d|\d\<close>,
  \<^verbatim>\<open>%M\<close> is \<^verbatim>\<open>[0-5]\d|\d\<close>, \<^verbatim>\<open>%S\<close> is \<^verbatim>\<open>6[0-1]|[0-5]\d|\d\<close>. Each predicate below says
  that the directive matches the whole of a field; the fields of the formats used here are
  delimited by characters no directive can match, so the first match of the compiled
  expression is the only one.
\<close>

definition re_m :: "string \<Rightarrow> bool" where
  "re_m s = (digits_len 1 2 s \<and> 1 \<le> nat_of_digits s \<and> nat_of_digits s \<le> 12)"

definition re_d :: "string \<Rightarrow> bool" where
  "re_d s = ((digits_len 1 2 s \<and> 1 \<le> nat_of_digits s \<and> nat_of_digits s \<le> 31) \<or>
             (case s of [b, c] \<Rightarrow> b = CHR '' '' \<and> is_digit c \<and> c \<noteq> CHR ''0'' | _ \<Rightarrow> False))"

definition re_Y :: "string \<Rightarrow> bool" where
  "re_Y s = digits_len 4 4 s"

definition re_y :: "string \<Rightarrow> bool" where
  "re_y s = digits_len 2 2 s"

definition re_H :: "string \<Rightarrow> bool" where
  "re_H s = (digits_len 1 2 s \<and> nat_of_digits s \<le> 23)"

definition re_M :: "string \<Rightarrow> bool" where
  "re_M s = (digits_len 1 2 s \<and> nat_of_digits s \<le> 59)"

definition re_S :: "string \<Rightarrow> bool" where
  "re_S s = (digits_len 1 2 s \<and> nat_of_digits s \<le> 61)"

definition strptime_mdY :: "string \<Rightarrow> error + date" where
  \<comment> \<open>\<^verbatim>\<open>strptime(s, '%m/%d/%Y')\<close>\<close>
  "strptime_mdY s =
     (case split_on CHR ''/'' s of
        [a, b, c] \<Rightarrow>
          if re_m a \<and> re_d b \<and> re_Y c
          then mk_date (nat_of_digits c) (nat_of_digits a) (nat_of_digits b)
          else Inl ValueError
      | _ \<Rightarrow> Inl ValueError)"

definition strptime_mdy :: "string \<Rightarrow> error + date" where
  \<comment> \<open>\<^verbatim>\<open>strptime(s, '%m/%d/%y')\<close>: years 00 to 68 are 2000 to 2068, 69 to 99 are 1969 to 1999.\<close>
  "strptime_mdy s =
     (case split_on CHR ''/'' s of
        [a, b, c] \<Rightarrow>
          if re_m a \<and> re_d b \<and> re_y c
          then mk_date (let y = nat_of_digits c in if y \<le> 68 then y + 2000 else y + 1900)
                 (nat_of_digits a) (nat_of_digits b)
          else Inl ValueError
      | _ \<Rightarrow> Inl ValueError)"

definition break_at :: "char \<Rightarrow> string \<Rightarrow> (string \<times> string) option" where
  \<comment> \<open>The field before the first \<open>c\<close> and the text after that \<open>c\<close>.\<close>
  "break_at c s =
     (case dropWhile (\<lambda>x. x \<noteq> c) s of [] \<Rightarrow> None
      | _ # r \<Rightarrow> Some (takeWhile (\<lambda>x. x \<noteq> c) s, r))"

definition parse_YmdHMS :: "string \<Rightarrow> error + (date \<times> string)" where
  \<comment> \<open>The directives \<^verbatim>\<open>%Y-%m-%d %H:%M:%S\<close> at the start of \<open>s\<close> (the blank of the format is
      \<^verbatim>\<open>\s+\<close>): the date and the text left after the seconds.\<close>
  "parse_YmdHMS s =
     (case break_at CHR ''-'' s of None \<Rightarrow> Inl ValueError
      | Some (ys, r1) \<Rightarrow>
     (case break_at CHR ''-'' r1 of None \<Rightarrow> Inl ValueError
      | Some (ms, r2) \<Rightarrow>
     (let (ds, r3) = (if starts_with '' '' r2 then (take 2 r2, drop 2 r2)
                      else (takeWhile is_digit r2, dropWhile is_digit r2));
          r4 = dropWhile is_space r3
      in if takeWhile is_space r3 = [] then Inl ValueError else
     (case break_at CHR '':'' r4 of None \<Rightarrow> Inl ValueError
      | Some (hs, r5) \<Rightarrow>
     (case break_at CHR '':'' r5 of None \<Rightarrow> Inl ValueError
      | Some (mins, r6) \<Rightarrow>
     (let ss = takeWhile is_digit r6; rest = dropWhile is_digit r6
      in if re_Y ys \<and> re_m ms \<and> re_d ds \<and> re_H hs \<and> re_M mins \<and> re_S ss
         then (case mk_date (nat_of_digits ys) (nat_of_digits ms) (nat_of_digits ds) of
                 Inl e \<Rightarrow> Inl e
               | Inr d \<Rightarrow> if nat_of_digits ss \<le> 59 then Inr (d, rest) else Inl ValueError)
         else Inl ValueError))))))"

definition strptime_YmdHMS :: "string \<Rightarrow> error + date" where
  \<comment> \<open>\<^verbatim>\<open>strptime(s, '%Y-%m-%d %H:%M:%S')\<close>; the source keeps only the date of the result.\<close>
  "strptime_YmdHMS s =
     (case parse_YmdHMS s of Inl e \<Rightarrow> Inl e
      | Inr (d, rest) \<Rightarrow> if rest = [] then Inr d else Inl ValueError)"

definition re_z_secs :: "string \<Rightarrow> bool" where
  \<comment> \<open>The seconds of a UTC offset, \<^verbatim>\<open>[0-5]\d(\.\d{1,6})?\<close>, to the end of the text.\<close>
  "re_z_secs s =
     (case s of
        a # b # f \<Rightarrow> a \<in> set ''012345'' \<and> is_digit b \<and>
                     (f = [] \<or> (case f of [] \<Rightarrow> False
                                 | p # fr \<Rightarrow> p = CHR ''.'' \<and> digits_len 1 6 fr))
      | _ \<Rightarrow> False)"

definition re_z :: "string \<Rightarrow> bool" where
  \<comment> \<open>\<^verbatim>\<open>%z\<close> to the end of the text: \<^verbatim>\<open>Z\<close>, or a sign, two digits of hours below 24,
      minutes and optional seconds, with a colon before both or before neither.\<close>
  "re_z s =
     (s = ''Z'' \<or>
      (case s of
         sg # h1 # h2 # r \<Rightarrow>
           (sg = CHR ''+'' \<or> sg = CHR ''-'') \<and> is_digit h1 \<and> is_digit h2 \<and>
           nat_of_digits [h1, h2] \<le> 23 \<and>
           (case r of
              m1 # m2 # t \<Rightarrow>
                if m1 = CHR '':'' then
                  (case t of
                     m3 # t' \<Rightarrow> m2 \<in> set ''012345'' \<and> is_digit m3 \<and>
                                (t' = [] \<or> (case t' of [] \<Rightarrow> False
                                             | q # u \<Rightarrow> q = CHR '':'' \<and> re_z_secs u))
                   | [] \<Rightarrow> False)
                else m1 \<in> set ''012345'' \<and> is_digit m2 \<and> (t = [] \<or> re_z_secs t)
            | _ \<Rightarrow> False)
       | _ \<Rightarrow> False))"

definition strptime_YmdHMSz :: "string \<Rightarrow> error + date" where
  \<comment> \<open>\<^verbatim>\<open>strptime(s, '%Y-%m-%d %H:%M:%S%z')\<close>; the source keeps only the date of the result.\<close>
  "strptime_YmdHMSz s =
     (case parse_YmdHMS s of Inl e \<Rightarrow> Inl e
      | Inr (d, rest) \<Rightarrow> if re_z rest then Inr d else Inl ValueError)"

subsection \<open>The patterns of \<^verbatim>\<open>get_legacy_opportunities\<close>\<close>

definition re_iso :: "string \<Rightarrow> bool" where
  \<comment> \<open>\<^verbatim>\<open>^\d{4}-\d{2}-\d{2} 00:00:00$\<close>\<close>
  "re_iso s =
     (let t = chomp s
      in length t = 19 \<and> list_all is_digit (take 4 t) \<and> take 1 (drop 4 t) = ''-'' \<and>
         list_all is_digit (take 2 (drop 5 t)) \<and> take 1 (drop 7 t) = ''-'' \<and>
         list_all is_digit (take 2 (drop 8 t)) \<and> drop 10 t = '' 00:00:00'')"

definition re_short_date :: "string \<Rightarrow> bool" where
  \<comment> \<open>\<^verbatim>\<open>^\d{1,2}/\d{1,2}/\d{4}$\<close>\<close>
  "re_short_date s =
     (case split_on CHR ''/'' (chomp s) of
        [a, b, c] \<Rightarrow> digits_len 1 2 a \<and> digits_len 1 2 b \<and> digits_len 4 4 c
      | _ \<Rightarrow> False)"

definition re_range_side :: "string \<Rightarrow> bool" where
  \<comment> \<open>\<^verbatim>\<open>\d{1,2}/\d{1,2}/\d{2,4}\<close>\<close>
  "re_range_side s =
     (case split_on CHR ''/'' s of
        [a, b, c] \<Rightarrow> digits_len 1 2 a \<and> digits_len 1 2 b \<and> digits_len 2 4 c
      | _ \<Rightarrow> False)"

definition re_range :: "string \<Rightarrow> bool" where
  \<comment> \<open>\<^verbatim>\<open>^\d{1,2}/\d{1,2}/\d{2,4}\-\d{1,2}\/\d{1,2}\/\d{2,4}$\<close>\<close>
  "re_range s =
     (case split_on CHR ''-'' (chomp s) of
        [l, r] \<Rightarrow> re_range_side l \<and> re_range_side r
      | _ \<Rightarrow> False)"

subsection \<open>\<^verbatim>\<open>get_legacy_opportunities\<close>\<close>

text \<open>
  The dictionary \<^verbatim>\<open>opportunities\<close> is an association list in insertion order, as a Python
  \<^verbatim>\<open>dict\<close> is: \<open>AList.update\<close> replaces the value of a key in place and puts a new key
  last. The combined dataset maps a sheet name to its rows, the header row first.
\<close>

type_synonym opportunities = "(string \<times> string list) list"

type_synonym combined = "string \<rightharpoonup> string list list"

definition ignored_columns :: "string list" where
  "ignored_columns = [''Volunteers:'', ''Total Hours:'']"

definition sheets_of_interest :: "string list" where
  "sheets_of_interest =
     [''2024 Handouts'', ''2024 Meal Prep'', ''2025 Saturday Handout'',
      ''2025 Sunday Handouts'', ''2025 Meal Prep'', ''2026 Saturday Handout'',
      ''2026 Sunday Handouts'', ''2026 Meal Prep'']"

definition seventh :: string where "seventh = ''seventh''"
definition riverside :: string where "riverside = ''riverside''"
definition menchaca :: string where "menchaca = ''menchaca''"
definition meal_prep :: string where "meal_prep = ''Meal Prep''"

definition first_day_of_saturday :: datetime where
  "first_day_of_saturday = midnight \<lparr>year = 2025, month = 4, day = 5\<rparr>"

definition first_day_of_riverside :: datetime where
  "first_day_of_riverside = midnight \<lparr>year = 2025, month = 10, day = 18\<rparr>"

definition missed_day :: datetime where
  "missed_day = midnight \<lparr>year = 2024, month = 3, day = 3\<rparr>"

definition range_step :: "date \<Rightarrow> opportunities \<Rightarrow> opportunities" where
  \<comment> \<open>The body of the \<^verbatim>\<open>while\<close> loop over a date range, without the increment.\<close>
  "range_step current_date opps =
     (if current_date = dt_date missed_day then opps
      else if weekday current_date = 6 then
        (let date_str = strftime_mdY current_date
         in if map_of opps date_str = None then AList.update date_str [seventh] opps
            else opps)
      else opps)"

function range_loop :: "date \<Rightarrow> date \<Rightarrow> opportunities \<Rightarrow> error + opportunities" where
  \<comment> \<open>\<^verbatim>\<open>while current_date <= end_date\<close>; adding a day to the last day of year 9999
      raises \<^verbatim>\<open>OverflowError\<close>.\<close>
  "range_loop current_date end_date opps =
     (if date_le current_date end_date then
        (if current_date = max_date then Inl OverflowError
         else range_loop (next_day current_date) end_date (range_step current_date opps))
      else Inr opps)"
  by pat_completeness auto
termination
proof (relation "measures [\<lambda>(c, e, m). year e + 1 - year c, \<lambda>(c, e, m). 12 - month c,
                           \<lambda>(c, e, m). 31 - day c]")
  show "wf (measures [\<lambda>(c, e, m). year e + 1 - year c, \<lambda>(c, e, m). 12 - month c,
                      \<lambda>(c, e, m). 31 - day c])"
    by simp
next
  fix current_date end_date :: date and opps :: opportunities
  assume le: "date_le current_date end_date"
  have y: "year current_date \<le> year end_date"
    using le by (auto simp: date_le_def date_less_def)
  have dim: "days_in_month (year current_date) (month current_date) \<le> 31"
    by (simp add: days_in_month_def)
  show "((next_day current_date, end_date, range_step current_date opps),
         (current_date, end_date, opps))
        \<in> measures [\<lambda>(c, e, m). year e + 1 - year c, \<lambda>(c, e, m). 12 - month c,
                      \<lambda>(c, e, m). 31 - day c]"
    using y dim by (auto simp: next_day_def)
qed

declare range_loop.simps [simp del]

definition strptime_range_side :: "string \<Rightarrow> error + date" where
  \<comment> \<open>\<^verbatim>\<open>strptime(s, '%m/%d/%y' if len(s.split('/')[-1]) == 2 else '%m/%d/%Y').date()\<close>\<close>
  "strptime_range_side s =
     (if length (last (split_on CHR ''/'' s)) = 2 then strptime_mdy s else strptime_mdY s)"

definition unexpected_weekday :: "string \<Rightarrow> string \<Rightarrow> string" where
  "unexpected_weekday col sheet =
     ''Unexpected weekday for date column '' @ col @ '' in sheet '' @ sheet"

definition not_a_date_string :: "string \<Rightarrow> string \<Rightarrow> string list" where
  \<comment> \<open>The line written to the error stream and the printed type of the cell.\<close>
  "not_a_date_string col sheet =
     [''Not a date string: '' @ [CHR 0x22] @ col @ [CHR 0x22] @ '' in sheet '' @ sheet,
      ''<class '' @ [CHR 0x27] @ ''str'' @ [CHR 0x27] @ ''>'']"

definition classify_date :: "datetime \<Rightarrow> string \<Rightarrow> string \<Rightarrow> opportunities \<Rightarrow>
    error + opportunities" where
  \<comment> \<open>The branch of a header cell that looks like \<^verbatim>\<open>1/10/2026\<close>.\<close>
  "classify_date now sheet col opps =
     (case strptime_mdY col of
        Inl e \<Rightarrow> Inl e
      | Inr d \<Rightarrow>
          (let col_date = midnight d in
           if dt_less now col_date then Inr opps
           else if dt_date col_date = dt_date missed_day then Inr opps
           else
             (let date_str = strftime_mdY (dt_date col_date) in
              if weekday (dt_date col_date) = 5 then
                (if dt_less col_date first_day_of_saturday
                 then Inr (AList.update date_str [meal_prep] opps)
                 else if dt_less col_date first_day_of_riverside
                 then Inr (AList.update date_str [seventh, meal_prep] opps)
                 else Inr (AList.update date_str [riverside, seventh, meal_prep] opps))
              else if weekday (dt_date col_date) = 6 then
                (if dt_less col_date first_day_of_saturday
                 then Inr (AList.update date_str [seventh] opps)
                 else Inr (AList.update date_str [menchaca] opps))
              else Inl (SystemExit [unexpected_weekday col sheet]))))"

definition classify_range :: "string \<Rightarrow> opportunities \<Rightarrow> error + opportunities" where
  \<comment> \<open>The branch of a header cell that looks like \<^verbatim>\<open>1/10/2026-1/17/2026\<close>.\<close>
  "classify_range col opps =
     (case split_on CHR ''-'' col of
        [start_str, end_str] \<Rightarrow>
          (case strptime_range_side start_str of
             Inl e \<Rightarrow> Inl e
           | Inr start_date \<Rightarrow>
               (case strptime_range_side end_str of
                  Inl e \<Rightarrow> Inl e
                | Inr end_date \<Rightarrow> range_loop start_date end_date opps))
      | _ \<Rightarrow> Inl ValueError)"

definition process_col :: "datetime \<Rightarrow> string \<Rightarrow> string \<Rightarrow> opportunities \<Rightarrow>
    error + opportunities" where
  \<comment> \<open>One turn of \<^verbatim>\<open>for col in row\<close>.\<close>
  "process_col now sheet col0 opps =
     (case (if re_iso col0
            then (case strptime_YmdHMS col0 of Inl e \<Rightarrow> Inl e | Inr d \<Rightarrow> Inr (strftime_mdY d))
            else Inr col0) of
        Inl e \<Rightarrow> Inl e
      | Inr col \<Rightarrow>
          if re_short_date col then classify_date now sheet col opps
          else if col \<in> set ignored_columns then Inr opps
          else if re_range col then classify_range col opps
          else Inl (SystemExit (not_a_date_string col sheet)))"

fun process_row :: "datetime \<Rightarrow> string \<Rightarrow> string list \<Rightarrow> opportunities \<Rightarrow>
    error + opportunities" where
  "process_row now sheet [] opps = Inr opps"
| "process_row now sheet (col # cols) opps =
     (case process_col now sheet col opps of
        Inl e \<Rightarrow> Inl e
      | Inr opps' \<Rightarrow> process_row now sheet cols opps')"

fun process_sheets :: "datetime \<Rightarrow> combined \<Rightarrow> string list \<Rightarrow> opportunities \<Rightarrow>
    error + opportunities" where
  \<comment> \<open>\<^verbatim>\<open>for sheet in sheets_of_interest: row = combined[sheet][0]\<close>\<close>
  "process_sheets now combined [] opps = Inr opps"
| "process_sheets now combined (sheet # sheets) opps =
     (case combined sheet of
        None \<Rightarrow> Inl (KeyError sheet)
      | Some rows \<Rightarrow>
          (case rows of
             [] \<Rightarrow> Inl IndexError
           | row # _ \<Rightarrow>
               (case process_row now sheet row opps of
                  Inl e \<Rightarrow> Inl e
                | Inr opps' \<Rightarrow> process_sheets now combined sheets opps')))"

definition get_legacy_opportunities :: "datetime \<Rightarrow> combined \<Rightarrow> error + opportunities" where
  "get_legacy_opportunities now combined = process_sheets now combined sheets_of_interest []"

text \<open>
  Two readings of the code above, used to state its properties. \<open>header_date\<close> is the
  date of a header cell that takes the literal-date branch of \<open>process_col\<close> and parses
  there; \<open>header_text\<close> is the value of \<^verbatim>\<open>col\<close> in that branch (the cell, or its
  rewriting from the ISO form); \<open>date_labels\<close> is the list the branch stores for a date,
  \<open>None\<close> on a weekday other than Saturday and Sunday. The lemmas
  \<open>process_col_literal\<close> and \<open>classify_date_labels\<close> below prove them against the code.
\<close>

definition header_date :: "string \<Rightarrow> date option" where
  "header_date col =
     (if re_iso col then (case strptime_YmdHMS col of Inl e \<Rightarrow> None | Inr d \<Rightarrow> Some d)
      else if re_short_date col then (case strptime_mdY col of Inl e \<Rightarrow> None | Inr d \<Rightarrow> Some d)
      else None)"

definition header_text :: "string \<Rightarrow> string" where
  "header_text col =
     (if re_iso col
      then (case strptime_YmdHMS col of Inl e \<Rightarrow> col | Inr d \<Rightarrow> strftime_mdY d)
      else col)"

definition date_labels :: "date \<Rightarrow> string list option" where
  "date_labels d =
     (if weekday d = 5 then
        Some (if dt_less (midnight d) first_day_of_saturday then [meal_prep]
              else if dt_less (midnight d) first_day_of_riverside then [seventh, meal_prep]
              else [riverside, seventh, meal_prep])
      else if weekday d = 6 then
        Some (if dt_less (midnight d) first_day_of_saturday then [seventh] else [menchaca])
      else None)"

subsection \<open>\<^verbatim>\<open>generate_migrated_opportunities\<close>\<close>

text \<open>
  A data frame is its list of column names and its rows; a row gives the cells it has by
  column name, and a column it lacks reads as the missing value (\<^verbatim>\<open>NaN\<close>, \<^verbatim>\<open>None\<close>), which
  is how \<^verbatim>\<open>pd.concat\<close> aligns a new row with the frame.
\<close>

datatype cell = CStr string | CInt int | CNone

type_synonym row = "(string \<times> cell) list"

record dataframe =
  columns :: "string list"
  rows :: "row list"

definition cell_of :: "row \<Rightarrow> string \<Rightarrow> cell" where
  "cell_of r c = (case map_of r c of Some v \<Rightarrow> v | None \<Rightarrow> CNone)"

definition df_concat :: "dataframe \<Rightarrow> row \<Rightarrow> dataframe" where
  \<comment> \<open>\<^verbatim>\<open>pd.concat([df, pd.DataFrame([new_row])], ignore_index=True)\<close>\<close>
  "df_concat df r =
     \<lparr>columns = columns df @ filter (\<lambda>c. c \<notin> set (columns df)) (map fst r),
      rows = rows df @ [r]\<rparr>"

definition row_date :: "row \<Rightarrow> error + string" where
  \<comment> \<open>The date of an existing row as \<^verbatim>\<open>M/D/YYYY\<close>; a final \<^verbatim>\<open>+00\<close> is read as
      \<^verbatim>\<open>+0000\<close>.\<close>
  "row_date r =
     (case cell_of r ''datetime'' of
        CStr date \<Rightarrow>
          (case strptime_YmdHMSz (if ends_with ''+00'' date then date @ ''00'' else date) of
             Inl e \<Rightarrow> Inl e
           | Inr d \<Rightarrow> Inr (strftime_mdY d))
      | _ \<Rightarrow> Inl TypeError)"

definition check_row :: "datetime \<Rightarrow> opportunities \<Rightarrow> row \<Rightarrow> error + unit" where
  \<comment> \<open>One turn of \<^verbatim>\<open>for index, row in df.iterrows()\<close>.\<close>
  "check_row now legacy_opportunities r =
     (case row_date r of
        Inl e \<Rightarrow> Inl e
      | Inr date \<Rightarrow>
          if map_of legacy_opportunities date \<noteq> None then Inr ()
          else
            (case strptime_mdY date of
               Inl e \<Rightarrow> Inl e
             | Inr date_obj \<Rightarrow>
                 if dt_less now (midnight date_obj) then Inr ()
                 else Inl (SystemExit [''Not in opportunities'', date])))"

fun check_rows :: "datetime \<Rightarrow> opportunities \<Rightarrow> string list \<Rightarrow> row list \<Rightarrow> error + unit" where
  "check_rows now legacy_opportunities cols [] = Inr ()"
| "check_rows now legacy_opportunities cols (r # rs) =
     (if ''datetime'' \<notin> set cols then Inl (KeyError ''datetime'')
      else
        (case check_row now legacy_opportunities r of
           Inl e \<Rightarrow> Inl e
         | Inr _ \<Rightarrow> check_rows now legacy_opportunities cols rs))"

definition new_row :: "string \<Rightarrow> string \<Rightarrow> date \<Rightarrow> datetime \<Rightarrow> row" where
  "new_row uid opportunity_name d now =
     [(''id'', CStr uid),
      (''image_url'', CNone),
      (''title'', CStr opportunity_name),
      (''datetime'', CStr (strftime_Ymd d @ '' 09:00:00-0500'')),
      (''location'', CStr ''location coming soon''),
      (''description'', CStr ''description coming soon''),
      (''spot_left'', CInt 0),
      (''created_at'', CStr (strftime_YmdHMSz now)),
      (''Ended'', CStr ''t''),
      (''start_time'', CStr ''start time coming soon''),
      (''end_time'', CStr ''end time coming soon''),
      (''redemption_code'', CNone),
      (''hours_approved'', CStr ''f''),
      (''location_link'', CNone)]"

definition row_matches :: "string \<Rightarrow> string \<Rightarrow> row \<Rightarrow> bool" where
  \<comment> \<open>\<^verbatim>\<open>(df['datetime'].str.contains(date)) & (df['name'] == opportunity_name)\<close> on one
      row.\<close>
  "row_matches date opportunity_name r =
     ((case cell_of r ''datetime'' of CStr s \<Rightarrow> str_contains date s | _ \<Rightarrow> False) \<and>
      cell_of r ''name'' = CStr opportunity_name)"

fun append_names :: "datetime \<Rightarrow> (nat \<Rightarrow> string) \<Rightarrow> string \<Rightarrow> string list \<Rightarrow>
    dataframe \<times> nat \<Rightarrow> error + dataframe \<times> nat" where
  \<comment> \<open>\<^verbatim>\<open>for opportunity_name in opportunity_names\<close>; the state is the frame and the number
      of identifiers drawn.\<close>
  "append_names now uuid4 date [] st = Inr st"
| "append_names now uuid4 date (opportunity_name # names) (df, n) =
     (if ''datetime'' \<notin> set (columns df) then Inl (KeyError ''datetime'')
      else if ''name'' \<notin> set (columns df) then Inl (KeyError ''name'')
      else if filter (row_matches date opportunity_name) (rows df) = [] then
        (case strptime_mdY date of
           Inl e \<Rightarrow> Inl e
         | Inr d \<Rightarrow>
             append_names now uuid4 date names
               (df_concat df (new_row (uuid4 n) opportunity_name d now), Suc n))
      else append_names now uuid4 date names (df, n))"

fun append_missing :: "datetime \<Rightarrow> (nat \<Rightarrow> string) \<Rightarrow> opportunities \<Rightarrow>
    dataframe \<times> nat \<Rightarrow> error + dataframe \<times> nat" where
  \<comment> \<open>\<^verbatim>\<open>for legacy_opportunity in legacy_opportunities.items()\<close>\<close>
  "append_missing now uuid4 [] st = Inr st"
| "append_missing now uuid4 ((date, opportunity_names) # items) st =
     (case append_names now uuid4 date opportunity_names st of
        Inl e \<Rightarrow> Inl e
      | Inr st' \<Rightarrow> append_missing now uuid4 items st')"

definition generate_migrated_opportunities :: "datetime \<Rightarrow> (nat \<Rightarrow> string) \<Rightarrow> nat \<Rightarrow>
    combined \<Rightarrow> dataframe \<Rightarrow> error + dataframe \<times> nat" where
  \<comment> \<open>\<open>df\<close> is what \<^verbatim>\<open>pd.read_csv("data/opportunities.csv")\<close> returns; the result is the
      frame written to \<^verbatim>\<open>output_csv\<close>.\<close>
  "generate_migrated_opportunities now uuid4 n combined df =
     (case get_legacy_opportunities now combined of
        Inl e \<Rightarrow> Inl e
      | Inr legacy_opportunities \<Rightarrow>
          (case check_rows now legacy_opportunities (columns df) (rows df) of
             Inl e \<Rightarrow> Inl e
           | Inr _ \<Rightarrow> append_missing now uuid4 legacy_opportunities (df, n)))"

text \<open>
  To state what the loops above append: the (date, label) pairs of a map in the order
  the loops visit them, and the rows made for a list of pairs, identifiers drawn in
  order from the \<open>n\<close>-th on.
\<close>

definition opportunity_pairs :: "opportunities \<Rightarrow> (string \<times> string) list" where
  "opportunity_pairs legacy_opportunities =
     concat (map (\<lambda>(date, opportunity_names). map (Pair date) opportunity_names)
               legacy_opportunities)"

fun synthesized_rows :: "datetime \<Rightarrow> (nat \<Rightarrow> string) \<Rightarrow> nat \<Rightarrow> (string \<times> string) list \<Rightarrow>
    row list" where
  "synthesized_rows now uuid4 n [] = []"
| "synthesized_rows now uuid4 n ((date, opportunity_name) # ps) =
     new_row (uuid4 n) opportunity_name (projr (strptime_mdY date)) now #
     synthesized_rows now uuid4 (Suc n) ps"

subsection \<open>\<^verbatim>\<open>_format_phone\<close>\<close>

definition format_phone :: "string option \<Rightarrow> string option" where
  \<comment> \<open>On \<^verbatim>\<open>None\<close> and on strings; the branch for numeric arguments is not part of the
      embedding.\<close>
  "format_phone phone =
     (case phone of
        None \<Rightarrow> None
      | Some p \<Rightarrow>
          (let s = strip p;
               s = (if CHR ''.'' \<in> set s
                    then (case split_on CHR ''.'' s of [] \<Rightarrow> s | w # _ \<Rightarrow> w) else s);
               digits = filter is_digit s;
               digits = (if length digits = 11 \<and> starts_with ''1'' digits
                         then drop 1 digits else digits)
           in if length digits = 10
              then Some (''('' @ take 3 digits @ '') '' @ take 3 (drop 3 digits) @ ''-'' @
                         drop 6 digits)
              else Some s))"

definition label_lists :: "string list set" where
  \<comment> \<open>The list literals that \<^verbatim>\<open>get_legacy_opportunities\<close> stores in the map.\<close>
  "label_lists =
     {[meal_prep], [seventh, meal_prep], [riverside, seventh, meal_prep], [seventh], [menchaca]}"

subsection \<open>Example data\<close>

text \<open>
  A run time and workbooks for the examples: \<open>sheets_with h\<close> has the eight sheets the
  classifier reads, each with the header row \<open>h\<close> and no data rows.
\<close>

definition run_time :: datetime where
  "run_time = \<lparr>dt_date = \<lparr>year = 2026, month = 11, day = 4\<rparr>,
               hour = 12, minute = 30, second = 0, microsecond = 0\<rparr>"

definition sheets_with :: "string list \<Rightarrow> combined" where
  "sheets_with h = map_of (map (\<lambda>s. (s, [h])) sheets_of_interest)"

definition example_uuid :: "nat \<Rightarrow> string" where
  "example_uuid n = ''00000000-0000-4000-8000-0000000000'' @ pad2 n"

definition opportunities_csv :: dataframe where
  \<comment> \<open>An opportunities table without rows: the columns of the rows the merge writes, and
      the column \<^verbatim>\<open>name\<close> that its test reads.\<close>
  "opportunities_csv =
     \<lparr>columns = [''id'', ''image_url'', ''title'', ''name'', ''datetime'', ''location'',
                  ''description'', ''spot_left'', ''created_at'', ''Ended'', ''start_time'',
                  ''end_time'', ''redemption_code'', ''hours_approved'', ''location_link''],
      rows = []\<rparr>"

definition exported_opportunities :: dataframe where
  \<comment> \<open>A table with exactly the columns of the rows the merge writes, holding one
      opportunity of 4/5/2025.\<close>
  "exported_opportunities =
     \<lparr>columns = [''id'', ''image_url'', ''title'', ''datetime'', ''location'',
                  ''description'', ''spot_left'', ''created_at'', ''Ended'', ''start_time'',
                  ''end_time'', ''redemption_code'', ''hours_approved'', ''location_link''],
      rows = [[(''id'', CStr ''a''), (''title'', CStr ''seventh''),
               (''datetime'', CStr ''2025-04-05 09:00:00-0500'')]]\<rparr>"

definition named_opportunities :: dataframe where
  \<comment> \<open>The same opportunity in a table that also has the column \<^verbatim>\<open>name\<close>.\<close>
  "named_opportunities =
     \<lparr>columns = columns opportunities_csv,
      rows = [[(''id'', CStr ''a''), (''title'', CStr ''seventh''), (''name'', CStr ''seventh''),
               (''datetime'', CStr ''2025-04-05 09:00:00-0500'')]]\<rparr>"

section \<open>Formatting and parsing dates\<close>

text \<open>
  A date rendered by \<^verbatim>\<open>strftime('%#m/%#d/%Y')\<close> is read back by
  \<^verbatim>\<open>strptime(..., '%m/%d/%Y')\<close>, so the keys of the date map determine their dates.
\<close>

lemma split_on_not_Nil: "split_on c s \<noteq> []"
  by (induction s) (auto split: list.splits)

lemma split_on_no_sep: "c \<notin> set a \<Longrightarrow> split_on c a = [a]"
  by (induction a) auto

lemma split_on_append: "c \<notin> set a \<Longrightarrow> split_on c (a @ c # r) = a # split_on c r"
  by (induction a) (auto split: list.splits)

lemma below_ten: "n < 10 \<Longrightarrow> n \<in> {0, 1, 2, 3, 4, 5, 6, 7, 8, 9::nat}"
  by auto

lemma digit_char_props:
  assumes "n < 10"
  shows "is_digit (digit_char n)" "digit_val (digit_char n) = n"
        "digit_char n \<noteq> CHR ''/''" "digit_char n \<noteq> CHR 0x0A"
        "CHR ''/'' \<noteq> digit_char n"
  using below_ten [OF assms]
  by (auto simp: is_digit_def digit_val_def digit_char_def)

lemma nopad_props:
  assumes "n < 100"
  shows "lo \<le> 1 \<Longrightarrow> 2 \<le> hi \<Longrightarrow> digits_len lo hi (nopad n)"
        "nat_of_digits (nopad n) = n" "CHR ''/'' \<notin> set (nopad n)"
proof -
  have a: "n div 10 < 10" "n mod 10 < 10" using assms by auto
  show "lo \<le> 1 \<Longrightarrow> 2 \<le> hi \<Longrightarrow> digits_len lo hi (nopad n)"
    using a by (auto simp: nopad_def digits_len_def digit_char_props)
  show "nat_of_digits (nopad n) = n"
    using a by (auto simp: nopad_def nat_of_digits_def digit_char_props)
  show "CHR ''/'' \<notin> set (nopad n)"
    using a by (auto simp: nopad_def digit_char_props)
qed

lemma digits4:
  "10 * (10 * (10 * (n div 1000) + n div 100 mod 10) + n div 10 mod 10) + n mod 10 = (n::nat)"
proof -
  define a where "a = n div 10"
  define b where "b = a div 10"
  have e: "n div 100 = b" "n div 1000 = b div 10" "n div 10 = a"
    by (simp_all add: a_def b_def div_mult2_eq)
  have "10 * (b div 10) + b mod 10 = b" by (rule mult_div_mod_eq)
  moreover have "10 * b + a mod 10 = a" unfolding b_def by (rule mult_div_mod_eq)
  moreover have "10 * a + n mod 10 = n" unfolding a_def by (rule mult_div_mod_eq)
  ultimately show ?thesis unfolding e by simp
qed

lemma pad4_props:
  assumes "n < 10000"
  shows "digits_len 4 4 (pad4 n)" "nat_of_digits (pad4 n) = n" "CHR ''/'' \<notin> set (pad4 n)"
        "last (pad4 n) \<noteq> CHR 0x0A"
proof -
  have a: "n div 1000 < 10" "n div 100 mod 10 < 10" "n div 10 mod 10 < 10" "n mod 10 < 10"
    using assms by auto
  show "digits_len 4 4 (pad4 n)"
    using a by (simp add: pad4_def digits_len_def digit_char_props)
  from digits4 [of n] show "nat_of_digits (pad4 n) = n"
    using a by (simp add: pad4_def nat_of_digits_def digit_char_props)
  show "CHR ''/'' \<notin> set (pad4 n)"
    using a by (auto simp: pad4_def digit_char_props)
  show "last (pad4 n) \<noteq> CHR 0x0A"
    using a digit_char_props(4) by (simp add: pad4_def)
qed

lemma valid_date_bounds:
  assumes "valid_date d"
  shows "month d < 100" "day d < 100" "year d < 10000" "1 \<le> month d" "month d \<le> 12"
        "1 \<le> day d" "day d \<le> 31"
  using assms by (auto simp: valid_date_def days_in_month_def split: if_splits)

lemma split_strftime_mdY:
  assumes "valid_date d"
  shows "split_on CHR ''/'' (strftime_mdY d) = [nopad (month d), nopad (day d), pad4 (year d)]"
proof -
  note b = valid_date_bounds [OF assms]
  have "split_on CHR ''/'' (strftime_mdY d)
        = nopad (month d) # split_on CHR ''/'' (nopad (day d) @ CHR ''/'' # pad4 (year d))"
    unfolding strftime_mdY_def using split_on_append [OF nopad_props(3) [OF b(1)]] by simp
  also have "split_on CHR ''/'' (nopad (day d) @ CHR ''/'' # pad4 (year d))
        = nopad (day d) # split_on CHR ''/'' (pad4 (year d))"
    using split_on_append [OF nopad_props(3) [OF b(2)]] by simp
  also have "split_on CHR ''/'' (pad4 (year d)) = [pad4 (year d)]"
    using split_on_no_sep [OF pad4_props(3) [OF b(3)]] .
  finally show ?thesis .
qed

lemma mk_date_fields: "valid_date d \<Longrightarrow> mk_date (year d) (month d) (day d) = Inr d"
  by (cases d) (simp add: mk_date_def)

lemma strptime_strftime_mdY:
  assumes "valid_date d"
  shows "strptime_mdY (strftime_mdY d) = Inr d"
proof -
  note b = valid_date_bounds [OF assms]
  have r: "re_m (nopad (month d))" "re_d (nopad (day d))" "re_Y (pad4 (year d))"
    using b by (simp_all add: re_m_def re_d_def re_Y_def nopad_props pad4_props)
  have n: "nat_of_digits (nopad (month d)) = month d" "nat_of_digits (nopad (day d)) = day d"
    "nat_of_digits (pad4 (year d)) = year d"
    using b by (simp_all add: nopad_props pad4_props)
  have "strptime_mdY (strftime_mdY d) = mk_date (year d) (month d) (day d)"
    unfolding strptime_mdY_def split_strftime_mdY [OF assms] using r by (simp add: n)
  then show ?thesis
    by (simp only: mk_date_fields [OF assms])
qed

lemma chomp_strftime_mdY:
  assumes "valid_date d"
  shows "chomp (strftime_mdY d) = strftime_mdY d"
proof -
  have "pad4 (year d) \<noteq> []" by (simp add: pad4_def)
  then have "last (strftime_mdY d) = last (pad4 (year d))"
    by (simp add: strftime_mdY_def)
  then show ?thesis
    using pad4_props(4) [OF valid_date_bounds(3) [OF assms]] by (simp add: chomp_def)
qed

lemma re_short_date_strftime:
  assumes "valid_date d"
  shows "re_short_date (strftime_mdY d)"
  using valid_date_bounds [OF assms]
  by (simp add: re_short_date_def chomp_strftime_mdY [OF assms] split_strftime_mdY [OF assms]
      nopad_props pad4_props)

lemma strftime_mdY_inj:
  assumes "valid_date a" "valid_date b" "strftime_mdY a = strftime_mdY b"
  shows "a = b"
proof -
  have "Inr a = strptime_mdY (strftime_mdY a)" using assms(1) by (simp add: strptime_strftime_mdY)
  also have "\<dots> = Inr b" using assms(2,3) by (simp add: strptime_strftime_mdY)
  finally show ?thesis by simp
qed

lemma mk_date_valid: "mk_date y m d = Inr x \<Longrightarrow> valid_date x"
  by (auto simp: mk_date_def Let_def split: if_splits)

lemma strptime_mdY_valid: "strptime_mdY s = Inr d \<Longrightarrow> valid_date d"
  by (auto simp: strptime_mdY_def mk_date_valid split: list.splits if_splits)

lemma strptime_mdy_valid: "strptime_mdy s = Inr d \<Longrightarrow> valid_date d"
  by (auto simp: strptime_mdy_def mk_date_valid split: list.splits if_splits)

lemma parse_YmdHMS_valid: "parse_YmdHMS s = Inr (d, r) \<Longrightarrow> valid_date d"
  by (auto simp: parse_YmdHMS_def Let_def mk_date_valid
      split: option.splits prod.splits if_splits sum.splits)

lemma strptime_YmdHMS_valid: "strptime_YmdHMS s = Inr d \<Longrightarrow> valid_date d"
  by (auto simp: strptime_YmdHMS_def parse_YmdHMS_valid split: sum.splits if_splits)

lemma strptime_YmdHMSz_valid: "strptime_YmdHMSz s = Inr d \<Longrightarrow> valid_date d"
  by (auto simp: strptime_YmdHMSz_def parse_YmdHMS_valid split: sum.splits if_splits)

lemma strptime_range_side_valid: "strptime_range_side s = Inr d \<Longrightarrow> valid_date d"
  by (auto simp: strptime_range_side_def strptime_mdY_valid strptime_mdy_valid split: if_splits)

section \<open>Phone numbers\<close>

text \<open>
  C8. Phone normalisation gives \<^verbatim>\<open>(XXX) XXX-XXXX\<close> when ten digits can be extracted and
  otherwise returns the original string. The three examples of the specification hold;
  but the text after the first dot is dropped before the digits are counted and the
  shortened string is what comes back: \<^verbatim>\<open>512.589.8513\<close> holds ten digits and comes back
  as \<^verbatim>\<open>512\<close>, and \<^verbatim>\<open>12.5\<close>, \<^verbatim>\<open> 123 \<close> come back changed.
\<close>

theorem format_phone_examples:
  "format_phone (Some ''15125898513.0'') = Some ''(512) 589-8513'' \<and>
   format_phone (Some ''5125898513'') = Some ''(512) 589-8513'' \<and>
   format_phone (Some ''123'') = Some ''123'' \<and>
   format_phone (Some ''512.589.8513'') = Some ''512'' \<and>
   format_phone (Some ''12.5'') = Some ''12'' \<and>
   format_phone (Some '' 123 '') = Some ''123''"
  by (intro conjI; code_simp)

section \<open>The classifier, one header cell at a time\<close>

lemma dt_less_midnight: "dt_less (midnight a) (midnight b) = date_less a b"
  by (simp add: dt_less_def midnight_def)

lemma dt_date_midnight: "dt_date (midnight d) = d"
  by (simp add: midnight_def)

lemma classify_date_labels:
  assumes "strptime_mdY col = Inr d"
  shows "classify_date now sheet col opps =
     (if dt_less now (midnight d) \<or> d = dt_date missed_day then Inr opps
      else (case date_labels d of
              Some ls \<Rightarrow> Inr (AList.update (strftime_mdY d) ls opps)
            | None \<Rightarrow> Inl (SystemExit [unexpected_weekday col sheet])))"
  using assms by (simp add: classify_date_def date_labels_def Let_def dt_date_midnight)

lemma process_col_literal:
  assumes "header_date col = Some d"
  shows "process_col now sheet col opps = classify_date now sheet (header_text col) opps"
    and "strptime_mdY (header_text col) = Inr d"
proof -
  show "strptime_mdY (header_text col) = Inr d"
    using assms
    by (auto simp: header_date_def header_text_def strptime_strftime_mdY strptime_YmdHMS_valid
        split: if_splits sum.splits)
  show "process_col now sheet col opps = classify_date now sheet (header_text col) opps"
    using assms
    by (auto simp: header_date_def header_text_def process_col_def re_short_date_strftime
        strptime_YmdHMS_valid split: if_splits sum.splits)
qed

lemma header_date_valid: "header_date col = Some d \<Longrightarrow> valid_date d"
  by (auto simp: header_date_def strptime_YmdHMS_valid strptime_mdY_valid
      split: if_splits sum.splits)

lemma process_col_cases:
  "process_col now sheet col opps =
     (case header_date col of
        Some d \<Rightarrow> classify_date now sheet (header_text col) opps
      | None \<Rightarrow>
          if re_iso col then (case strptime_YmdHMS col of Inl e \<Rightarrow> Inl e | Inr d \<Rightarrow> Inl ValueError)
          else if re_short_date col then (case strptime_mdY col of Inl e \<Rightarrow> Inl e | Inr d \<Rightarrow> Inl ValueError)
          else if col \<in> set ignored_columns then Inr opps
          else if re_range col then classify_range col opps
          else Inl (SystemExit (not_a_date_string col sheet)))"
proof (cases "header_date col")
  case (Some d)
  then show ?thesis by (simp add: process_col_literal(1))
next
  case None
  then show ?thesis
    by (auto simp: header_date_def process_col_def classify_date_def split: if_splits sum.splits)
qed


lemma update_set_cases:
  "(k', v') \<in> set (AList.update k v m) \<Longrightarrow> (k', v') = (k, v) \<or> (k', v') \<in> set m"
  by (induction m) (auto split: if_splits)

lemma range_step_keeps: "map_of m k = Some v \<Longrightarrow> map_of (range_step c m) k = Some v"
  by (auto simp: range_step_def Let_def update_conv')

lemma range_step_new:
  assumes "map_of m k = None" "map_of (range_step c m) k = Some v"
  shows "v = [seventh] \<and> weekday c = 6 \<and> c \<noteq> dt_date missed_day \<and> k = strftime_mdY c"
  using assms by (auto simp: range_step_def Let_def update_conv' split: if_splits)

lemma range_step_set:
  "(k, v) \<in> set (range_step c m) \<Longrightarrow> (k, v) \<in> set m \<or> v = [seventh]"
  by (auto simp: range_step_def Let_def dest: update_set_cases split: if_splits)

lemma range_loop_unfold:
  assumes "range_loop c e m = Inr m'" "date_le c e"
  shows "range_loop (next_day c) e (range_step c m) = Inr m'"
  using assms by (subst (asm) range_loop.simps) (simp split: if_splits)

lemma range_loop_stop:
  assumes "range_loop c e m = Inr m'" "\<not> date_le c e"
  shows "m' = m"
  using assms by (subst (asm) range_loop.simps) simp

lemma range_loop_keeps:
  "range_loop c e m = Inr m' \<Longrightarrow> map_of m k = Some v \<Longrightarrow> map_of m' k = Some v"
proof (induction c e m rule: range_loop.induct)
  case (1 c e m)
  show ?case
  proof (cases "date_le c e")
    case True
    have nm: "c \<noteq> max_date"
      using "1.prems"(1) True by (subst (asm) range_loop.simps) (auto split: if_splits)
    show ?thesis
      using "1.IH" [OF True nm range_loop_unfold [OF "1.prems"(1) True]]
        range_step_keeps [OF "1.prems"(2)] by simp
  next
    case False
    then show ?thesis using range_loop_stop [OF "1.prems"(1)] "1.prems"(2) by simp
  qed
qed

lemma range_loop_set:
  "range_loop c e m = Inr m' \<Longrightarrow> (k, v) \<in> set m' \<Longrightarrow> (k, v) \<in> set m \<or> v = [seventh]"
proof (induction c e m rule: range_loop.induct)
  case (1 c e m)
  show ?case
  proof (cases "date_le c e")
    case True
    have nm: "c \<noteq> max_date"
      using "1.prems"(1) True by (subst (asm) range_loop.simps) (auto split: if_splits)
    have "(k, v) \<in> set (range_step c m) \<or> v = [seventh]"
      using "1.IH" [OF True nm range_loop_unfold [OF "1.prems"(1) True] "1.prems"(2)] .
    then show ?thesis using range_step_set by blast
  next
    case False
    then show ?thesis using range_loop_stop [OF "1.prems"(1)] "1.prems"(2) by simp
  qed
qed

lemma date_le_refl: "date_le d d"
  by (simp add: date_le_def)

lemma date_less_trans: "date_less a b \<Longrightarrow> date_less b c \<Longrightarrow> date_less a c"
  by (auto simp: date_less_def)

lemma date_le_trans: "date_le a b \<Longrightarrow> date_le b c \<Longrightarrow> date_le a c"
  using date_less_trans by (auto simp: date_le_def)

lemma date_less_next_day: "date_less d (next_day d)"
  by (auto simp: date_less_def next_day_def)

lemma date_le_next_day: "date_le d (next_day d)"
  by (simp add: date_le_def date_less_next_day)

lemma range_loop_new:
  "range_loop c e m = Inr m' \<Longrightarrow> map_of m k = None \<Longrightarrow> map_of m' k = Some v \<Longrightarrow>
   v = [seventh] \<and>
   (\<exists>d. date_le c d \<and> date_le d e \<and> weekday d = 6 \<and> d \<noteq> dt_date missed_day \<and>
        k = strftime_mdY d)"
proof (induction c e m rule: range_loop.induct)
  case (1 c e m)
  show ?case
  proof (cases "date_le c e")
    case True
    have nm: "c \<noteq> max_date"
      using "1.prems"(1) True by (subst (asm) range_loop.simps) (auto split: if_splits)
    note rec = range_loop_unfold [OF "1.prems"(1) True]
    show ?thesis
    proof (cases "map_of (range_step c m) k")
      case None
      from "1.IH" [OF True nm rec None "1.prems"(3)]
      obtain d where v: "v = [seventh]" and d: "date_le (next_day c) d" "date_le d e"
        "weekday d = 6" "d \<noteq> dt_date missed_day" "k = strftime_mdY d"
        by blast
      have "date_le c d" using date_le_trans [OF date_le_next_day d(1)] .
      with v d show ?thesis by blast
    next
      case (Some v0)
      have "map_of m' k = Some v0" using range_loop_keeps [OF rec Some] .
      then have "v0 = v" using "1.prems"(3) by simp
      with range_step_new [OF "1.prems"(2) Some] True date_le_refl show ?thesis by blast
    qed
  next
    case False
    then show ?thesis using range_loop_stop [OF "1.prems"(1)] "1.prems"(2,3) by simp
  qed
qed

section \<open>The classifier, over rows and sheets\<close>

lemma process_row_inv:
  assumes "process_row now sheet cols m = Inr m'" "P m"
    and "\<And>c a b. c \<in> set cols \<Longrightarrow> P a \<Longrightarrow> process_col now sheet c a = Inr b \<Longrightarrow> P b"
  shows "P m'"
  using assms
proof (induction cols arbitrary: m)
  case Nil
  then show ?case by simp
next
  case (Cons x xs)
  from Cons.prems(1) obtain m1 where
    h: "process_col now sheet x m = Inr m1" and t: "process_row now sheet xs m1 = Inr m'"
    by (auto split: sum.splits)
  have p1: "P m1" using Cons.prems(3) [of x m m1] Cons.prems(2) h by simp
  show ?case
  proof (rule Cons.IH [OF t p1])
    fix c a b
    assume "c \<in> set xs" "P a" "process_col now sheet c a = Inr b"
    then show "P b" using Cons.prems(3) [of c a b] by simp
  qed
qed

lemma process_sheets_inv:
  assumes "process_sheets now combined sheets m = Inr m'" "P m"
    and "\<And>s c a b. P a \<Longrightarrow> process_col now s c a = Inr b \<Longrightarrow> P b"
  shows "P m'"
  using assms(1,2)
proof (induction sheets arbitrary: m)
  case Nil
  then show ?case by simp
next
  case (Cons s ss)
  from Cons.prems(1) obtain row rest m1 where
    "combined s = Some (row # rest)" and r: "process_row now s row m = Inr m1"
    and t: "process_sheets now combined ss m1 = Inr m'"
    by (auto split: option.splits list.splits sum.splits)
  have "P m1"
    by (rule process_row_inv [where P = P, OF r Cons.prems(2)]) (rule assms(3))
  then show ?case using Cons.IH [OF t] by simp
qed

lemma process_row_reaches:
  assumes "process_row now sheet cols m = Inr m'" "c \<in> set cols"
    and est: "\<And>a b. process_col now sheet c a = Inr b \<Longrightarrow> Q b"
    and pres: "\<And>c a b. Q a \<Longrightarrow> process_col now sheet c a = Inr b \<Longrightarrow> Q b"
  shows "Q m'"
  using assms(1,2)
proof (induction cols arbitrary: m)
  case Nil
  then show ?case by simp
next
  case (Cons x xs)
  from Cons.prems(1) obtain m1 where
    h: "process_col now sheet x m = Inr m1" and t: "process_row now sheet xs m1 = Inr m'"
    by (auto split: sum.splits)
  show ?case
  proof (cases "c = x")
    case True
    then have "Q m1" using est h by blast
    then show ?thesis
      by (rule process_row_inv [where P = Q, OF t]) (rule pres)
  next
    case False
    then have "c \<in> set xs" using Cons.prems(2) by simp
    then show ?thesis using Cons.IH [OF t] by simp
  qed
qed

lemma process_sheets_reaches:
  assumes "process_sheets now combined sheets m = Inr m'" "s \<in> set sheets"
    and "combined s = Some (row # rest)" "c \<in> set row"
    and est: "\<And>a b. process_col now s c a = Inr b \<Longrightarrow> Q b"
    and pres: "\<And>s c a b. Q a \<Longrightarrow> process_col now s c a = Inr b \<Longrightarrow> Q b"
  shows "Q m'"
  using assms(1,2)
proof (induction sheets arbitrary: m)
  case Nil
  then show ?case by simp
next
  case (Cons x xs)
  from Cons.prems(1) obtain row' rest' m1 where
    c: "combined x = Some (row' # rest')" and r: "process_row now x row' m = Inr m1"
    and t: "process_sheets now combined xs m1 = Inr m'"
    by (auto split: option.splits list.splits sum.splits)
  show ?case
  proof (cases "s = x")
    case True
    then have rr: "process_row now s row m = Inr m1" using c assms(3) r by simp
    have "Q m1"
      by (rule process_row_reaches [where Q = Q, OF rr assms(4)]) (erule est, erule pres)
    then show ?thesis
      by (rule process_sheets_inv [where P = Q, OF t]) (rule pres)
  next
    case False
    then have "s \<in> set xs" using Cons.prems(2) by simp
    then show ?thesis using Cons.IH [OF t] by simp
  qed
qed


lemma process_sheets_append:
  "process_sheets now combined (pre @ post) m =
     (case process_sheets now combined pre m of Inl e \<Rightarrow> Inl e
      | Inr m' \<Rightarrow> process_sheets now combined post m')"
  by (induction pre arbitrary: m) (auto split: sum.splits option.splits list.splits)

lemma process_sheets_missing:
  "s \<in> set sheets \<Longrightarrow> combined s = None \<Longrightarrow> \<exists>e. process_sheets now combined sheets m = Inl e"
  by (induction sheets arbitrary: m) (auto split: sum.splits option.splits list.splits)

lemma not_Inr_is_Inl: "(\<forall>m. x \<noteq> Inr m) \<Longrightarrow> \<exists>e. x = Inl e"
  by (cases x) auto

lemma classify_range_loop:
  assumes "classify_range col m = Inr m'"
  shows "\<exists>s e. range_loop s e m = Inr m'"
  using assms by (auto simp: classify_range_def split: list.splits sum.splits)

lemma date_labels_five: "date_labels d = Some ls \<Longrightarrow> ls \<in> label_lists"
  by (auto simp: date_labels_def label_lists_def split: if_splits)

lemma process_col_five:
  assumes "process_col now s c a = Inr b" and "\<forall>(k, v) \<in> set a. v \<in> label_lists"
  shows "\<forall>(k, v) \<in> set b. v \<in> label_lists"
proof (clarify)
  fix k v
  assume kv: "(k, v) \<in> set b"
  show "v \<in> label_lists"
  proof (cases "header_date c")
    case (Some d)
    have "classify_date now s (header_text c) a = Inr b"
      using assms(1) process_col_literal(1) [OF Some] by simp
    then have "b = a \<or> (\<exists>ls. date_labels d = Some ls \<and> b = AList.update (strftime_mdY d) ls a)"
      unfolding classify_date_labels [OF process_col_literal(2) [OF Some]]
      by (auto split: if_splits option.splits)
    then show ?thesis
    proof
      assume "b = a"
      then show ?thesis using kv assms(2) by auto
    next
      assume "\<exists>ls. date_labels d = Some ls \<and> b = AList.update (strftime_mdY d) ls a"
      then obtain ls where l: "date_labels d = Some ls" "b = AList.update (strftime_mdY d) ls a"
        by blast
      from kv l(2) have "(k, v) = (strftime_mdY d, ls) \<or> (k, v) \<in> set a"
        using update_set_cases by simp
      then show ?thesis using date_labels_five [OF l(1)] assms(2) by auto
    qed
  next
    case None
    then have "b = a \<or> classify_range c a = Inr b"
      using assms(1) unfolding process_col_cases by (auto split: if_splits sum.splits)
    then show ?thesis
    proof
      assume "b = a"
      then show ?thesis using kv assms(2) by auto
    next
      assume "classify_range c a = Inr b"
      then obtain st en where "range_loop st en a = Inr b"
        using classify_range_loop by blast
      from range_loop_set [OF this kv] show ?thesis
        using assms(2) by (auto simp: label_lists_def)
    qed
  qed
qed

section \<open>The label lists of the map\<close>

text \<open>
  C9. Every value of the map that the classifier returns is one of the five lists
  \<^verbatim>\<open>[Meal Prep]\<close>, \<^verbatim>\<open>[seventh, Meal Prep]\<close>, \<^verbatim>\<open>[riverside, seventh, Meal Prep]\<close>,
  \<^verbatim>\<open>[seventh]\<close>, \<^verbatim>\<open>[menchaca]\<close>: never an empty list, another label or another order.
\<close>

theorem label_lists_invariant:
  assumes "get_legacy_opportunities now combined = Inr opps" and "(k, v) \<in> set opps"
  shows "v \<in> {[''Meal Prep''], [''seventh'', ''Meal Prep''],
               [''riverside'', ''seventh'', ''Meal Prep''], [''seventh''], [''menchaca'']}"
proof -
  have "\<forall>(k, v) \<in> set opps. v \<in> label_lists"
  proof (rule process_sheets_inv [where P = "\<lambda>m. \<forall>(k, v) \<in> set m. v \<in> label_lists"])
    show "process_sheets now combined sheets_of_interest [] = Inr opps"
      using assms(1) by (simp add: get_legacy_opportunities_def)
    show "\<forall>(k, v) \<in> set []. v \<in> label_lists" by simp
  next
    fix s c a b
    assume "\<forall>(k, v) \<in> set a. v \<in> label_lists" "process_col now s c a = Inr b"
    then show "\<forall>(k, v) \<in> set b. v \<in> label_lists" using process_col_five by blast
  qed
  then have "v \<in> label_lists" using assms(2) by auto
  then show ?thesis
    by (simp add: label_lists_def seventh_def riverside_def menchaca_def meal_prep_def)
qed

theorem label_lists_invariant_witness:
  "get_legacy_opportunities run_time
     (sheets_with [''Volunteers:'', ''10/18/2025'', ''3/30/2025'', ''Total Hours:'']) =
     Inr [(''10/18/2025'', [''riverside'', ''seventh'', ''Meal Prep'']),
          (''3/30/2025'', [''seventh''])] \<and>
   [''riverside'', ''seventh'', ''Meal Prep''] \<in>
     {[''Meal Prep''], [''seventh'', ''Meal Prep''],
      [''riverside'', ''seventh'', ''Meal Prep''], [''seventh''], [''menchaca'']}"
proof -
  have run: "get_legacy_opportunities run_time
     (sheets_with [''Volunteers:'', ''10/18/2025'', ''3/30/2025'', ''Total Hours:'']) =
     Inr [(''10/18/2025'', [''riverside'', ''seventh'', ''Meal Prep'']),
          (''3/30/2025'', [''seventh''])]"
    by code_simp
  from label_lists_invariant [OF run, of "''10/18/2025''" "[''riverside'', ''seventh'', ''Meal Prep'']"]
  show ?thesis using run by simp
qed

section \<open>Missing sheets\<close>

text \<open>
  C10. The classifier looks up each of the eight sheet names in the combined dataset
  without a test; a dataset that lacks one is said to make it raise a lookup error. As
  stated this fails: the sheets are read in order, and the header of an earlier sheet can
  end the run first, with another error.
\<close>

theorem missing_sheet_other_error:
  "[''2024 Handouts'' \<mapsto> [[''Name'']]] ''2026 Meal Prep'' = None \<and>
   ''2026 Meal Prep'' \<in> set sheets_of_interest \<and>
   get_legacy_opportunities run_time [''2024 Handouts'' \<mapsto> [[''Name'']]] =
     Inl (SystemExit (not_a_date_string ''Name'' ''2024 Handouts''))"
  by code_simp

text \<open>
  C10, amended. A dataset that lacks one of the eight sheets never yields a map, and the
  missing sheet is never skipped: when the sheets before it are read without error, the
  error is the lookup error of the missing sheet; when reading the sheets before it
  fails, that earlier error is the error of the run.
\<close>

theorem missing_sheet_no_map:
  assumes "s \<in> set sheets_of_interest" and "combined s = None"
  shows "(\<exists>e. get_legacy_opportunities now combined = Inl e) \<and>
         (\<forall>pre post m. sheets_of_interest = pre @ s # post \<longrightarrow>
            process_sheets now combined pre [] = Inr m \<longrightarrow>
            get_legacy_opportunities now combined = Inl (KeyError s)) \<and>
         (\<forall>pre post e. sheets_of_interest = pre @ s # post \<longrightarrow>
            process_sheets now combined pre [] = Inl e \<longrightarrow>
            get_legacy_opportunities now combined = Inl e)"
proof (intro conjI)
  show "\<exists>e. get_legacy_opportunities now combined = Inl e"
    unfolding get_legacy_opportunities_def using assms by (rule process_sheets_missing)
  show "\<forall>pre post m. sheets_of_interest = pre @ s # post \<longrightarrow>
            process_sheets now combined pre [] = Inr m \<longrightarrow>
            get_legacy_opportunities now combined = Inl (KeyError s)"
  proof (intro allI impI)
    fix pre post m
    assume a: "sheets_of_interest = pre @ s # post" "process_sheets now combined pre [] = Inr m"
    show "get_legacy_opportunities now combined = Inl (KeyError s)"
      unfolding get_legacy_opportunities_def a(1) process_sheets_append
      using a(2) assms(2) by simp
  qed
  show "\<forall>pre post e. sheets_of_interest = pre @ s # post \<longrightarrow>
            process_sheets now combined pre [] = Inl e \<longrightarrow>
            get_legacy_opportunities now combined = Inl e"
  proof (intro allI impI)
    fix pre post e
    assume a: "sheets_of_interest = pre @ s # post" "process_sheets now combined pre [] = Inl e"
    show "get_legacy_opportunities now combined = Inl e"
      unfolding get_legacy_opportunities_def a(1) process_sheets_append
      using a(2) by simp
  qed
qed

theorem missing_sheet_no_map_witness:
  "''2024 Meal Prep'' \<in> set sheets_of_interest \<and>
   sheets_of_interest = [''2024 Handouts''] @ ''2024 Meal Prep'' # tl (tl sheets_of_interest) \<and>
   [''2024 Handouts'' \<mapsto> [[''Volunteers:'']]] ''2024 Meal Prep'' = None \<and>
   process_sheets run_time [''2024 Handouts'' \<mapsto> [[''Volunteers:'']]] [''2024 Handouts''] [] = Inr [] \<and>
   get_legacy_opportunities run_time [''2024 Handouts'' \<mapsto> [[''Volunteers:'']]] =
     Inl (KeyError ''2024 Meal Prep'') \<and>
   [''2024 Handouts'' \<mapsto> [[''Name'']]] ''2024 Meal Prep'' = None \<and>
   process_sheets run_time [''2024 Handouts'' \<mapsto> [[''Name'']]] [''2024 Handouts''] [] =
     Inl (SystemExit (not_a_date_string ''Name'' ''2024 Handouts'')) \<and>
   get_legacy_opportunities run_time [''2024 Handouts'' \<mapsto> [[''Name'']]] =
     Inl (SystemExit (not_a_date_string ''Name'' ''2024 Handouts''))"
proof -
  have a: "''2024 Meal Prep'' \<in> set sheets_of_interest"
    by (simp add: sheets_of_interest_def)
  have c: "sheets_of_interest =
      [''2024 Handouts''] @ ''2024 Meal Prep'' # tl (tl sheets_of_interest)"
    by (simp add: sheets_of_interest_def)
  have b: "[''2024 Handouts'' \<mapsto> [[''Volunteers:'']]] ''2024 Meal Prep'' = None"
    by simp
  have d: "process_sheets run_time [''2024 Handouts'' \<mapsto> [[''Volunteers:'']]]
      [''2024 Handouts''] [] = Inr []"
    by code_simp
  have b': "[''2024 Handouts'' \<mapsto> [[''Name'']]] ''2024 Meal Prep'' = None"
    by simp
  have d': "process_sheets run_time [''2024 Handouts'' \<mapsto> [[''Name'']]] [''2024 Handouts''] [] =
     Inl (SystemExit (not_a_date_string ''Name'' ''2024 Handouts''))"
    by code_simp
  from missing_sheet_no_map [where s = "''2024 Meal Prep''" and now = run_time
      and combined = "[''2024 Handouts'' \<mapsto> [[''Volunteers:'']]]", OF a b] c d
  have r: "get_legacy_opportunities run_time [''2024 Handouts'' \<mapsto> [[''Volunteers:'']]] =
     Inl (KeyError ''2024 Meal Prep'')"
    by blast
  from missing_sheet_no_map [where s = "''2024 Meal Prep''" and now = run_time
      and combined = "[''2024 Handouts'' \<mapsto> [[''Name'']]]", OF a b'] c d'
  have r': "get_legacy_opportunities run_time [''2024 Handouts'' \<mapsto> [[''Name'']]] =
     Inl (SystemExit (not_a_date_string ''Name'' ''2024 Handouts''))"
    by blast
  show ?thesis using a b c d r b' d' r' by blast
qed

section \<open>A literal date on another weekday\<close>

lemma date_labels_weekend: "date_labels d \<noteq> None \<longleftrightarrow> weekday d = 5 \<or> weekday d = 6"
  by (simp add: date_labels_def)


lemma process_row_fails:
  assumes "c \<in> set cols" and "\<And>m. \<exists>e. process_col now sheet c m = Inl e"
  shows "\<exists>e. process_row now sheet cols m = Inl e"
  using assms(1)
proof (induction cols arbitrary: m)
  case Nil
  then show ?case by simp
next
  case (Cons x xs)
  show ?case
  proof (cases "process_col now sheet x m")
    case (Inl e)
    then show ?thesis by simp
  next
    case (Inr m1)
    then have "c \<noteq> x" using assms(2) [of m] by auto
    then have "c \<in> set xs" using Cons.prems by simp
    from Cons.IH [OF this, of m1] show ?thesis using Inr by simp
  qed
qed




section \<open>Literal dates: the entry of the date\<close>

lemma process_col_keeps_date:
  assumes "valid_date d" and "date_labels d = Some ls"
    and "map_of a (strftime_mdY d) = Some ls"
    and "process_col now s c a = Inr b"
  shows "map_of b (strftime_mdY d) = Some ls"
proof (cases "header_date c")
  case (Some d')
  have "classify_date now s (header_text c) a = Inr b"
    using assms(4) process_col_literal(1) [OF Some] by simp
  then have "b = a \<or> (\<exists>ls'. date_labels d' = Some ls' \<and> b = AList.update (strftime_mdY d') ls' a)"
    unfolding classify_date_labels [OF process_col_literal(2) [OF Some]]
    by (auto split: if_splits option.splits)
  then show ?thesis
  proof
    assume "b = a"
    then show ?thesis using assms(3) by simp
  next
    assume "\<exists>ls'. date_labels d' = Some ls' \<and> b = AList.update (strftime_mdY d') ls' a"
    then obtain ls' where l: "date_labels d' = Some ls'" "b = AList.update (strftime_mdY d') ls' a"
      by blast
    show ?thesis
    proof (cases "strftime_mdY d' = strftime_mdY d")
      case True
      then have "d' = d"
        using strftime_mdY_inj [OF header_date_valid [OF Some] assms(1)] by simp
      then show ?thesis using l assms(2) by (simp add: update_conv')
    next
      case False
      then show ?thesis using l(2) assms(3) by (simp add: update_conv')
    qed
  qed
next
  case None
  then have "b = a \<or> classify_range c a = Inr b"
    using assms(4) unfolding process_col_cases by (auto split: if_splits sum.splits)
  then show ?thesis
  proof
    assume "b = a"
    then show ?thesis using assms(3) by simp
  next
    assume "classify_range c a = Inr b"
    then obtain st en where "range_loop st en a = Inr b"
      using classify_range_loop by blast
    from range_loop_keeps [OF this assms(3)] show ?thesis .
  qed
qed

lemma process_col_sets_date:
  assumes "header_date col = Some d" and "\<not> dt_less now (midnight d)"
    and "d \<noteq> dt_date missed_day" and "date_labels d = Some ls"
  shows "process_col now sheet col opps = Inr (AList.update (strftime_mdY d) ls opps)"
  using assms(2,3,4)
  by (simp add: process_col_literal(1) [OF assms(1)]
      classify_date_labels [OF process_col_literal(2) [OF assms(1)]])

lemma run_has_date:
  assumes "get_legacy_opportunities now combined = Inr opps"
    and "sheet \<in> set sheets_of_interest" and "combined sheet = Some (row # rest)"
    and "col \<in> set row" and "header_date col = Some d"
    and "\<not> dt_less now (midnight d)" and "d \<noteq> dt_date missed_day"
    and "date_labels d = Some ls"
  shows "map_of opps (strftime_mdY d) = Some ls"
proof (rule process_sheets_reaches [where combined = combined
      and Q = "\<lambda>m. map_of m (strftime_mdY d) = Some ls", OF _ assms(2,3,4)])
  show "process_sheets now combined sheets_of_interest [] = Inr opps"
    using assms(1) by (simp add: get_legacy_opportunities_def)
next
  fix a b
  assume "process_col now sheet col a = Inr b"
  then show "map_of b (strftime_mdY d) = Some ls"
    using process_col_sets_date [OF assms(5,6,7,8)] by (auto simp: update_conv')
next
  fix s c a b
  assume "map_of a (strftime_mdY d) = Some ls" "process_col now s c a = Inr b"
  then show "map_of b (strftime_mdY d) = Some ls"
    using process_col_keeps_date [OF header_date_valid [OF assms(5)] assms(8)] by blast
qed

lemma date_labels_eras:
  "date_labels d =
     (if weekday d = 5 then
        Some (if date_less d \<lparr>year = 2025, month = 4, day = 5\<rparr> then [''Meal Prep'']
              else if date_less d \<lparr>year = 2025, month = 10, day = 18\<rparr>
              then [''seventh'', ''Meal Prep'']
              else [''riverside'', ''seventh'', ''Meal Prep''])
      else if weekday d = 6 then
        Some (if date_less d \<lparr>year = 2025, month = 4, day = 5\<rparr> then [''seventh'']
              else [''menchaca''])
      else None)"
  by (simp add: date_labels_def first_day_of_saturday_def first_day_of_riverside_def
      dt_less_midnight seventh_def riverside_def menchaca_def meal_prep_def)

text \<open>
  C1. Let a header cell of a sheet of interest parse as a literal date (directly, or
  after its rewriting from the ISO form) that is not after the run time and is not the
  missed day 3/3/2024. In the map a run returns, the entry of that date is exactly:
  for a Saturday before 4/5/2025, \<^verbatim>\<open>[Meal Prep]\<close>; for a Saturday from 4/5/2025 (that day
  included) and before 10/18/2025, \<^verbatim>\<open>[seventh, Meal Prep]\<close>; for a Saturday from 10/18/2025,
  \<^verbatim>\<open>[riverside, seventh, Meal Prep]\<close>; for a Sunday before 4/5/2025, \<^verbatim>\<open>[seventh]\<close>; for a
  Sunday from 4/5/2025, \<^verbatim>\<open>[menchaca]\<close>.
\<close>

theorem literal_date_classification:
  assumes "get_legacy_opportunities now combined = Inr opps"
    and "sheet \<in> set sheets_of_interest" and "combined sheet = Some (row # rest)"
    and "col \<in> set row" and "header_date col = Some d"
    and "\<not> dt_less now (midnight d)" and "d \<noteq> \<lparr>year = 2024, month = 3, day = 3\<rparr>"
  shows
    "(weekday d = 5 \<and> date_less d \<lparr>year = 2025, month = 4, day = 5\<rparr> \<longrightarrow>
        map_of opps (strftime_mdY d) = Some [''Meal Prep'']) \<and>
     (weekday d = 5 \<and> \<not> date_less d \<lparr>year = 2025, month = 4, day = 5\<rparr> \<and>
        date_less d \<lparr>year = 2025, month = 10, day = 18\<rparr> \<longrightarrow>
        map_of opps (strftime_mdY d) = Some [''seventh'', ''Meal Prep'']) \<and>
     (weekday d = 5 \<and> \<not> date_less d \<lparr>year = 2025, month = 10, day = 18\<rparr> \<longrightarrow>
        map_of opps (strftime_mdY d) = Some [''riverside'', ''seventh'', ''Meal Prep'']) \<and>
     (weekday d = 6 \<and> date_less d \<lparr>year = 2025, month = 4, day = 5\<rparr> \<longrightarrow>
        map_of opps (strftime_mdY d) = Some [''seventh'']) \<and>
     (weekday d = 6 \<and> \<not> date_less d \<lparr>year = 2025, month = 4, day = 5\<rparr> \<longrightarrow>
        map_of opps (strftime_mdY d) = Some [''menchaca''])"
proof -
  have m: "d \<noteq> dt_date missed_day"
    using assms(7) by (simp add: missed_day_def midnight_def)
  have k: "map_of opps (strftime_mdY d) = Some ls" if "date_labels d = Some ls" for ls
    using run_has_date [OF assms(1-6) m that] .
  have e: "date_less d \<lparr>year = 2025, month = 4, day = 5\<rparr> \<Longrightarrow>
           date_less d \<lparr>year = 2025, month = 10, day = 18\<rparr>"
    by (auto simp: date_less_def)
  show ?thesis
    using e by (auto intro!: k simp: date_labels_eras)
qed

theorem literal_date_classification_witness:
  "get_legacy_opportunities run_time
     (sheets_with [''Volunteers:'', ''2025-04-05 00:00:00'', ''Total Hours:'']) =
     Inr [(''4/5/2025'', [''seventh'', ''Meal Prep''])] \<and>
   ''2025 Saturday Handout'' \<in> set sheets_of_interest \<and>
   header_date ''2025-04-05 00:00:00'' = Some \<lparr>year = 2025, month = 4, day = 5\<rparr> \<and>
   \<not> dt_less run_time (midnight \<lparr>year = 2025, month = 4, day = 5\<rparr>) \<and>
   weekday \<lparr>year = 2025, month = 4, day = 5\<rparr> = 5 \<and>
   \<not> date_less \<lparr>year = 2025, month = 4, day = 5\<rparr> \<lparr>year = 2025, month = 4, day = 5\<rparr> \<and>
   date_less \<lparr>year = 2025, month = 4, day = 5\<rparr> \<lparr>year = 2025, month = 10, day = 18\<rparr> \<and>
   map_of [(''4/5/2025'', [''seventh'', ''Meal Prep''])]
     (strftime_mdY \<lparr>year = 2025, month = 4, day = 5\<rparr>) = Some [''seventh'', ''Meal Prep'']"
proof -
  have run: "get_legacy_opportunities run_time
     (sheets_with [''Volunteers:'', ''2025-04-05 00:00:00'', ''Total Hours:'']) =
     Inr [(''4/5/2025'', [''seventh'', ''Meal Prep''])]"
    by code_simp
  have s: "''2025 Saturday Handout'' \<in> set sheets_of_interest"
    by (simp add: sheets_of_interest_def)
  have l: "sheets_with [''Volunteers:'', ''2025-04-05 00:00:00'', ''Total Hours:'']
      ''2025 Saturday Handout'' =
      Some ([''Volunteers:'', ''2025-04-05 00:00:00'', ''Total Hours:''] # [])"
    by (simp add: sheets_with_def sheets_of_interest_def)
  have c: "''2025-04-05 00:00:00'' \<in> set [''Volunteers:'', ''2025-04-05 00:00:00'', ''Total Hours:'']"
    by simp
  have h: "header_date ''2025-04-05 00:00:00'' = Some \<lparr>year = 2025, month = 4, day = 5\<rparr>"
    by code_simp
  have n: "\<not> dt_less run_time (midnight \<lparr>year = 2025, month = 4, day = 5\<rparr>)"
    by code_simp
  have x: "\<lparr>year = 2025, month = 4, day = 5\<rparr> \<noteq> \<lparr>year = 2024, month = 3, day = 3\<rparr>"
    by simp
  have w: "weekday \<lparr>year = 2025, month = 4, day = 5\<rparr> = 5"
    by code_simp
  have d1: "\<not> date_less \<lparr>year = 2025, month = 4, day = 5\<rparr> \<lparr>year = 2025, month = 4, day = 5\<rparr>"
    and d2: "date_less \<lparr>year = 2025, month = 4, day = 5\<rparr> \<lparr>year = 2025, month = 10, day = 18\<rparr>"
    by (simp_all add: date_less_def)
  from literal_date_classification [where combined =
      "sheets_with [''Volunteers:'', ''2025-04-05 00:00:00'', ''Total Hours:'']", OF run s l c h n x]
  show ?thesis using run s h n w d1 d2 by simp
qed

section \<open>Overwriting, and dates after the run time\<close>

lemma classify_range_parts:
  assumes "classify_range col m = Inr m'"
  shows "\<exists>l r st en. split_on CHR ''-'' col = [l, r] \<and> strptime_range_side l = Inr st \<and>
           strptime_range_side r = Inr en \<and> range_loop st en m = Inr m'"
  using assms by (auto simp: classify_range_def split: list.splits sum.splits)

lemma process_col_range:
  assumes "header_date col = None" and "process_col now sheet col opps = Inr opps'"
    and "col \<notin> set ignored_columns"
  shows "classify_range col opps = Inr opps'"
  using assms unfolding process_col_cases by (auto split: if_splits sum.splits)

text \<open>
  C5. A literal-date header is said always to overwrite the entry recorded for its date,
  and a date-range header never to overwrite one. The first half fails as stated: a
  literal-date header whose date is after the run time is skipped, so an entry that a
  date-range header has recorded for that date stays. Run on 4 November 2026, the header
  row \<^verbatim>\<open>11/8/2026-11/14/2026\<close>, \<^verbatim>\<open>11/8/2026\<close> leaves \<^verbatim>\<open>[seventh]\<close> for Sunday 8 November 2026,
  where the literal-date rule for that Sunday is \<^verbatim>\<open>[menchaca]\<close>.
\<close>

theorem skipped_literal_keeps_entry:
  "header_date ''11/8/2026'' = Some \<lparr>year = 2026, month = 11, day = 8\<rparr> \<and>
   date_labels \<lparr>year = 2026, month = 11, day = 8\<rparr> = Some [''menchaca''] \<and>
   process_col run_time ''2026 Sunday Handouts'' ''11/8/2026'' [(''11/8/2026'', [''seventh''])] =
     Inr [(''11/8/2026'', [''seventh''])] \<and>
   get_legacy_opportunities run_time (sheets_with [''11/8/2026-11/14/2026'', ''11/8/2026'']) =
     Inr [(''11/8/2026'', [''seventh''])]"
  by code_simp

text \<open>
  C5, amended. A literal-date header whose date has occurred, is not the missed day
  and is a Saturday or a Sunday stores its list under the date whatever the map held
  there. A literal-date header whose date is after the run time or is the missed day
  leaves the map as it is. A date-range header leaves every entry of the map as it was,
  and each entry it adds is \<^verbatim>\<open>[seventh]\<close> for a Sunday between the two ends of the range.
\<close>

theorem overwrite_rule:
  "(header_date col = Some d \<and> \<not> dt_less now (midnight d) \<and>
    d \<noteq> \<lparr>year = 2024, month = 3, day = 3\<rparr> \<and> (weekday d = 5 \<or> weekday d = 6) \<longrightarrow>
      (\<exists>ls. process_col now sheet col opps = Inr (AList.update (strftime_mdY d) ls opps) \<and>
            map_of (AList.update (strftime_mdY d) ls opps) (strftime_mdY d) = Some ls \<and>
            date_labels d = Some ls)) \<and>
   (header_date col = Some d \<and>
    (dt_less now (midnight d) \<or> d = \<lparr>year = 2024, month = 3, day = 3\<rparr>) \<longrightarrow>
      process_col now sheet col opps = Inr opps) \<and>
   (header_date col = None \<and> col \<notin> set ignored_columns \<and>
    process_col now sheet col opps = Inr opps' \<longrightarrow>
      (\<forall>k v. map_of opps k = Some v \<longrightarrow> map_of opps' k = Some v) \<and>
      (\<forall>k v. map_of opps k = None \<longrightarrow> map_of opps' k = Some v \<longrightarrow>
         v = [''seventh''] \<and>
         (\<exists>l r st en x. split_on CHR ''-'' col = [l, r] \<and> strptime_range_side l = Inr st \<and>
            strptime_range_side r = Inr en \<and> date_le st x \<and> date_le x en \<and>
            weekday x = 6 \<and> k = strftime_mdY x)))"
proof (intro conjI impI)
  assume a: "header_date col = Some d \<and> \<not> dt_less now (midnight d) \<and>
    d \<noteq> \<lparr>year = 2024, month = 3, day = 3\<rparr> \<and> (weekday d = 5 \<or> weekday d = 6)"
  then have m: "d \<noteq> dt_date missed_day"
    by (simp add: missed_day_def midnight_def)
  from a obtain ls where l: "date_labels d = Some ls"
    using date_labels_weekend [of d] by auto
  have "process_col now sheet col opps = Inr (AList.update (strftime_mdY d) ls opps)"
    using process_col_sets_date [OF _ _ m l] a by blast
  then show "\<exists>ls. process_col now sheet col opps = Inr (AList.update (strftime_mdY d) ls opps) \<and>
            map_of (AList.update (strftime_mdY d) ls opps) (strftime_mdY d) = Some ls \<and>
            date_labels d = Some ls"
    using l by (simp add: update_conv')
next
  assume a: "header_date col = Some d \<and>
    (dt_less now (midnight d) \<or> d = \<lparr>year = 2024, month = 3, day = 3\<rparr>)"
  then have h: "header_date col = Some d" by simp
  have "dt_less now (midnight d) \<or> d = dt_date missed_day"
    using a by (auto simp: missed_day_def midnight_def)
  then show "process_col now sheet col opps = Inr opps"
    by (simp add: process_col_literal(1) [OF h]
        classify_date_labels [OF process_col_literal(2) [OF h]])
next
  assume a: "header_date col = None \<and> col \<notin> set ignored_columns \<and>
    process_col now sheet col opps = Inr opps'"
  then have "classify_range col opps = Inr opps'"
    using process_col_range by blast
  then obtain l r st en where p: "split_on CHR ''-'' col = [l, r]"
    "strptime_range_side l = Inr st" "strptime_range_side r = Inr en"
    "range_loop st en opps = Inr opps'"
    using classify_range_parts by blast
  show "\<forall>k v. map_of opps k = Some v \<longrightarrow> map_of opps' k = Some v"
    using range_loop_keeps [OF p(4)] by blast
  show "\<forall>k v. map_of opps k = None \<longrightarrow> map_of opps' k = Some v \<longrightarrow>
         v = [''seventh''] \<and>
         (\<exists>l r st en x. split_on CHR ''-'' col = [l, r] \<and> strptime_range_side l = Inr st \<and>
            strptime_range_side r = Inr en \<and> date_le st x \<and> date_le x en \<and>
            weekday x = 6 \<and> k = strftime_mdY x)"
  proof (intro allI impI)
    fix k v
    assume "map_of opps k = None" "map_of opps' k = Some v"
    from range_loop_new [OF p(4) this] p(1,2,3)
    show "v = [''seventh''] \<and>
         (\<exists>l r st en x. split_on CHR ''-'' col = [l, r] \<and> strptime_range_side l = Inr st \<and>
            strptime_range_side r = Inr en \<and> date_le st x \<and> date_le x en \<and>
            weekday x = 6 \<and> k = strftime_mdY x)"
      unfolding seventh_def by blast
  qed
qed

theorem overwrite_rule_witness:
  "header_date ''4/6/2025'' = Some \<lparr>year = 2025, month = 4, day = 6\<rparr> \<and>
   \<not> dt_less run_time (midnight \<lparr>year = 2025, month = 4, day = 6\<rparr>) \<and>
   weekday \<lparr>year = 2025, month = 4, day = 6\<rparr> = 6 \<and>
   process_col run_time ''2025 Sunday Handouts'' ''4/6/2025'' [(''4/6/2025'', [''seventh''])] =
     Inr [(''4/6/2025'', [''menchaca''])] \<and>
   header_date ''11/8/2026'' = Some \<lparr>year = 2026, month = 11, day = 8\<rparr> \<and>
   dt_less run_time (midnight \<lparr>year = 2026, month = 11, day = 8\<rparr>) \<and>
   process_col run_time ''2026 Sunday Handouts'' ''11/8/2026'' [(''11/8/2026'', [''seventh''])] =
     Inr [(''11/8/2026'', [''seventh''])] \<and>
   header_date ''3/30/2025-4/6/2025'' = None \<and>
   ''3/30/2025-4/6/2025'' \<notin> set ignored_columns \<and>
   process_col run_time ''2025 Sunday Handouts'' ''3/30/2025-4/6/2025''
     [(''4/6/2025'', [''menchaca''])] =
     Inr [(''4/6/2025'', [''menchaca'']), (''3/30/2025'', [''seventh''])] \<and>
   map_of [(''4/6/2025'', [''menchaca'']), (''3/30/2025'', [''seventh''])] ''4/6/2025'' =
     Some [''menchaca'']"
proof -
  have h: "header_date ''4/6/2025'' = Some \<lparr>year = 2025, month = 4, day = 6\<rparr>"
    by code_simp
  have n: "\<not> dt_less run_time (midnight \<lparr>year = 2025, month = 4, day = 6\<rparr>)"
    by code_simp
  have x: "\<lparr>year = 2025, month = 4, day = 6\<rparr> \<noteq> \<lparr>year = 2024, month = 3, day = 3\<rparr>"
    by simp
  have w: "weekday \<lparr>year = 2025, month = 4, day = 6\<rparr> = 6"
    by code_simp
  have p1: "process_col run_time ''2025 Sunday Handouts'' ''4/6/2025''
      [(''4/6/2025'', [''seventh''])] = Inr [(''4/6/2025'', [''menchaca''])]"
    by code_simp
  have hf: "header_date ''11/8/2026'' = Some \<lparr>year = 2026, month = 11, day = 8\<rparr>"
    by code_simp
  have nf: "dt_less run_time (midnight \<lparr>year = 2026, month = 11, day = 8\<rparr>)"
    by code_simp
  have g: "header_date ''3/30/2025-4/6/2025'' = None"
    by code_simp
  have i: "''3/30/2025-4/6/2025'' \<notin> set ignored_columns"
    by code_simp
  have p2: "process_col run_time ''2025 Sunday Handouts'' ''3/30/2025-4/6/2025''
     [(''4/6/2025'', [''menchaca''])] =
     Inr [(''4/6/2025'', [''menchaca'']), (''3/30/2025'', [''seventh''])]"
    by code_simp
  have old: "map_of [(''4/6/2025'', [''menchaca''])] ''4/6/2025'' = Some [''menchaca'']"
    by simp
  from overwrite_rule [where col = "''4/6/2025''" and d = "\<lparr>year = 2025, month = 4, day = 6\<rparr>"
      and now = run_time and sheet = "''2025 Sunday Handouts''"
      and opps = "[(''4/6/2025'', [''seventh''])]"] h n x w
  have a: "\<exists>ls. process_col run_time ''2025 Sunday Handouts'' ''4/6/2025''
      [(''4/6/2025'', [''seventh''])] =
      Inr (AList.update (strftime_mdY \<lparr>year = 2025, month = 4, day = 6\<rparr>) ls
        [(''4/6/2025'', [''seventh''])])"
    by blast
  from overwrite_rule [where col = "''11/8/2026''" and d = "\<lparr>year = 2026, month = 11, day = 8\<rparr>"
      and now = run_time and sheet = "''2026 Sunday Handouts''"
      and opps = "[(''11/8/2026'', [''seventh''])]"] hf nf
  have s: "process_col run_time ''2026 Sunday Handouts'' ''11/8/2026''
      [(''11/8/2026'', [''seventh''])] = Inr [(''11/8/2026'', [''seventh''])]"
    by blast
  from overwrite_rule [where col = "''3/30/2025-4/6/2025''" and now = run_time
      and sheet = "''2025 Sunday Handouts''" and opps = "[(''4/6/2025'', [''menchaca''])]"
      and opps' = "[(''4/6/2025'', [''menchaca'']), (''3/30/2025'', [''seventh''])]"] g i p2 old
  have b: "map_of [(''4/6/2025'', [''menchaca'']), (''3/30/2025'', [''seventh''])] ''4/6/2025'' =
     Some [''menchaca'']"
    by blast
  show ?thesis using h n w p1 hf nf s g i p2 a b by blast
qed

text \<open>
  C4. The missed day 3/3/2024 and every date after the run time are said to be absent
  from the map for both kinds of header. The literal-date branch tests both; the
  date-range branch tests the missed day only, so a range that reaches past the run time
  puts its future Sundays in the map: run on 4 November 2026, the header
  \<^verbatim>\<open>11/8/2026-11/14/2026\<close> records Sunday 8 November 2026.
\<close>

theorem range_adds_future_sunday:
  "dt_less run_time (midnight \<lparr>year = 2026, month = 11, day = 8\<rparr>) \<and>
   strftime_mdY \<lparr>year = 2026, month = 11, day = 8\<rparr> = ''11/8/2026'' \<and>
   get_legacy_opportunities run_time (sheets_with [''Volunteers:'', ''11/8/2026-11/14/2026'']) =
     Inr [(''11/8/2026'', [''seventh''])] \<and>
   get_legacy_opportunities run_time (sheets_with [''Volunteers:'', ''11/8/2026'']) = Inr []"
  by code_simp

section \<open>The validation pass of the merge\<close>

lemma row_date_form:
  assumes "row_date r = Inr date"
  shows "\<exists>d. valid_date d \<and> date = strftime_mdY d"
proof -
  from assms obtain s d where "strptime_YmdHMSz s = Inr d" "date = strftime_mdY d"
    by (auto simp: row_date_def split: cell.splits sum.splits)
  then show ?thesis using strptime_YmdHMSz_valid by blast
qed

lemma check_row_result:
  assumes "valid_date d" and "row_date r = Inr (strftime_mdY d)"
  shows "check_row now legacy r =
           (if map_of legacy (strftime_mdY d) \<noteq> None \<or> dt_less now (midnight d) then Inr ()
            else Inl (SystemExit [''Not in opportunities'', strftime_mdY d]))"
  using assms by (simp add: check_row_def strptime_strftime_mdY)

lemma check_rows_abort:
  assumes "r \<in> set rs" and "valid_date d" and "row_date r = Inr (strftime_mdY d)"
    and "map_of legacy (strftime_mdY d) = None" and "\<not> dt_less now (midnight d)"
  shows "\<exists>e. check_rows now legacy cols rs = Inl e"
  using assms(1)
proof (induction rs)
  case Nil
  then show ?case by simp
next
  case (Cons x xs)
  show ?case
  proof (cases "r = x")
    case True
    then show ?thesis
      using check_row_result [OF assms(2,3), of now legacy] assms(4,5) by simp
  next
    case False
    then have "r \<in> set xs" using Cons.prems by simp
    from Cons.IH [OF this] show ?thesis by (auto split: sum.splits)
  qed
qed

lemma check_rows_pass:
  assumes "''datetime'' \<in> set cols"
    and "\<forall>r\<in>set rs. \<exists>d. valid_date d \<and> row_date r = Inr (strftime_mdY d) \<and>
           (map_of legacy (strftime_mdY d) \<noteq> None \<or> dt_less now (midnight d))"
  shows "check_rows now legacy cols rs = Inr ()"
  using assms(2)
proof (induction rs)
  case Nil
  then show ?case by simp
next
  case (Cons x xs)
  then obtain d where d: "valid_date d" "row_date x = Inr (strftime_mdY d)"
    "map_of legacy (strftime_mdY d) \<noteq> None \<or> dt_less now (midnight d)"
    by auto
  have "check_row now legacy x = Inr ()"
    using check_row_result [OF d(1,2), of now legacy] d(3) by auto
  moreover have "check_rows now legacy cols xs = Inr ()"
    using Cons by simp
  ultimately show ?case using assms(1) by simp
qed

lemma check_rows_exit:
  assumes "''datetime'' \<in> set cols" and "\<forall>r\<in>set rs. \<exists>date. row_date r = Inr date"
  shows "check_rows now legacy cols rs = Inr () \<or>
         (\<exists>date. check_rows now legacy cols rs = Inl (SystemExit [''Not in opportunities'', date]))"
  using assms(2)
proof (induction rs)
  case Nil
  then show ?case by simp
next
  case (Cons x xs)
  then obtain date where "row_date x = Inr date" by auto
  then obtain d where d: "valid_date d" "row_date x = Inr (strftime_mdY d)"
    using row_date_form by blast
  have ih: "check_rows now legacy cols xs = Inr () \<or>
         (\<exists>date. check_rows now legacy cols xs = Inl (SystemExit [''Not in opportunities'', date]))"
    using Cons by simp
  show ?case
    using check_row_result [OF d, of now legacy] ih assms(1) by auto
qed

text \<open>
  C6. The merge validates the existing rows against the map the classifier returned,
  before it appends anything, for a table that has the column \<^verbatim>\<open>datetime\<close>. A row whose
  date has occurred (it is not after the run time) and has no entry in that map makes
  the merge fail whatever the other rows are, so that no table is returned; when all
  rows parse, the failure is the exit with the diagnostic \<^verbatim>\<open>Not in opportunities\<close> and
  the date. When every row has its date in the map or a date after the run time, nothing
  aborts: the result is that of the appending loop on the table as it was read.
\<close>

theorem validation_before_merge:
  assumes "get_legacy_opportunities now combined = Inr legacy"
    and "''datetime'' \<in> set (columns df)"
  shows "((\<exists>r\<in>set (rows df). \<exists>d. valid_date d \<and> row_date r = Inr (strftime_mdY d) \<and>
             map_of legacy (strftime_mdY d) = None \<and> \<not> dt_less now (midnight d)) \<longrightarrow>
            (\<exists>e. generate_migrated_opportunities now uuid4 n combined df = Inl e)) \<and>
         ((\<exists>r\<in>set (rows df). \<exists>d. valid_date d \<and> row_date r = Inr (strftime_mdY d) \<and>
             map_of legacy (strftime_mdY d) = None \<and> \<not> dt_less now (midnight d)) \<and>
          (\<forall>r\<in>set (rows df). \<exists>date. row_date r = Inr date) \<longrightarrow>
            (\<exists>date. generate_migrated_opportunities now uuid4 n combined df =
               Inl (SystemExit [''Not in opportunities'', date]))) \<and>
         ((\<forall>r\<in>set (rows df). \<exists>d. valid_date d \<and> row_date r = Inr (strftime_mdY d) \<and>
             (map_of legacy (strftime_mdY d) \<noteq> None \<or> dt_less now (midnight d))) \<longrightarrow>
            generate_migrated_opportunities now uuid4 n combined df =
              append_missing now uuid4 legacy (df, n))"
proof (intro conjI impI)
  assume "\<exists>r\<in>set (rows df). \<exists>d. valid_date d \<and> row_date r = Inr (strftime_mdY d) \<and>
             map_of legacy (strftime_mdY d) = None \<and> \<not> dt_less now (midnight d)"
  then obtain e where "check_rows now legacy (columns df) (rows df) = Inl e"
    using check_rows_abort by blast
  then show "\<exists>e. generate_migrated_opportunities now uuid4 n combined df = Inl e"
    by (simp add: generate_migrated_opportunities_def assms(1))
next
  assume a: "(\<exists>r\<in>set (rows df). \<exists>d. valid_date d \<and> row_date r = Inr (strftime_mdY d) \<and>
             map_of legacy (strftime_mdY d) = None \<and> \<not> dt_less now (midnight d)) \<and>
          (\<forall>r\<in>set (rows df). \<exists>date. row_date r = Inr date)"
  then obtain e where e: "check_rows now legacy (columns df) (rows df) = Inl e"
    using check_rows_abort by blast
  from a have "check_rows now legacy (columns df) (rows df) = Inr () \<or>
      (\<exists>date. check_rows now legacy (columns df) (rows df) =
         Inl (SystemExit [''Not in opportunities'', date]))"
    using check_rows_exit [OF assms(2)] by blast
  then obtain date where
    "check_rows now legacy (columns df) (rows df) = Inl (SystemExit [''Not in opportunities'', date])"
    using e by auto
  then show "\<exists>date. generate_migrated_opportunities now uuid4 n combined df =
               Inl (SystemExit [''Not in opportunities'', date])"
    by (simp add: generate_migrated_opportunities_def assms(1))
next
  assume "\<forall>r\<in>set (rows df). \<exists>d. valid_date d \<and> row_date r = Inr (strftime_mdY d) \<and>
             (map_of legacy (strftime_mdY d) \<noteq> None \<or> dt_less now (midnight d))"
  then have "check_rows now legacy (columns df) (rows df) = Inr ()"
    using check_rows_pass [OF assms(2)] by blast
  then show "generate_migrated_opportunities now uuid4 n combined df =
              append_missing now uuid4 legacy (df, n)"
    by (simp add: generate_migrated_opportunities_def assms(1))
qed

theorem validation_before_merge_witness:
  "get_legacy_opportunities run_time (sheets_with [''Volunteers:'', ''4/5/2025'']) =
     Inr [(''4/5/2025'', [''seventh'', ''Meal Prep''])] \<and>
   row_date [(''datetime'', CStr ''2025-04-05 14:00:00+00'')] = Inr ''4/5/2025'' \<and>
   row_date [(''datetime'', CStr ''2027-01-03 09:00:00-0500'')] = Inr ''1/3/2027'' \<and>
   row_date [(''datetime'', CStr ''2025-04-12 09:00:00-0500'')] = Inr ''4/12/2025'' \<and>
   generate_migrated_opportunities run_time example_uuid 0
     (sheets_with [''Volunteers:'', ''4/5/2025''])
     \<lparr>columns = [''name'', ''datetime''],
      rows = [[(''datetime'', CStr ''2025-04-05 14:00:00+00'')],
              [(''datetime'', CStr ''2025-04-12 09:00:00-0500'')]]\<rparr> =
     Inl (SystemExit [''Not in opportunities'', ''4/12/2025'']) \<and>
   generate_migrated_opportunities run_time example_uuid 0
     (sheets_with [''Volunteers:'', ''4/5/2025''])
     \<lparr>columns = [''name'', ''datetime''],
      rows = [[(''datetime'', CStr ''2025-04-05 14:00:00+00'')],
              [(''datetime'', CStr ''2027-01-03 09:00:00-0500'')]]\<rparr> =
     append_missing run_time example_uuid [(''4/5/2025'', [''seventh'', ''Meal Prep''])]
       (\<lparr>columns = [''name'', ''datetime''],
         rows = [[(''datetime'', CStr ''2025-04-05 14:00:00+00'')],
                 [(''datetime'', CStr ''2027-01-03 09:00:00-0500'')]]\<rparr>, 0) \<and>
   (case generate_migrated_opportunities run_time example_uuid 0
       (sheets_with [''Volunteers:'', ''4/5/2025''])
       \<lparr>columns = [''name'', ''datetime''],
        rows = [[(''datetime'', CStr ''2025-04-05 14:00:00+00'')],
                [(''datetime'', CStr ''2027-01-03 09:00:00-0500'')]]\<rparr> of
      Inl e \<Rightarrow> [] | Inr (df', k) \<Rightarrow> map (\<lambda>r. cell_of r ''title'') (rows df')) =
     [CNone, CNone, CStr ''seventh'', CStr ''Meal Prep'']"
proof -
  let ?comb = "sheets_with [''Volunteers:'', ''4/5/2025'']"
  let ?legacy = "[(''4/5/2025'', [''seventh'', ''Meal Prep''])]"
  let ?r1 = "[(''datetime'', CStr ''2025-04-05 14:00:00+00'')]"
  let ?r2 = "[(''datetime'', CStr ''2027-01-03 09:00:00-0500'')]"
  let ?r3 = "[(''datetime'', CStr ''2025-04-12 09:00:00-0500'')]"
  let ?bad = "\<lparr>columns = [''name'', ''datetime''], rows = [?r1, ?r3]\<rparr>"
  let ?ok = "\<lparr>columns = [''name'', ''datetime''], rows = [?r1, ?r2]\<rparr>"
  let ?d1 = "\<lparr>year = 2025, month = 4, day = 5\<rparr>"
  let ?d2 = "\<lparr>year = 2027, month = 1, day = 3\<rparr>"
  let ?d3 = "\<lparr>year = 2025, month = 4, day = 12\<rparr>"
  have run: "get_legacy_opportunities run_time ?comb = Inr ?legacy"
    by code_simp
  have cb: "''datetime'' \<in> set (columns ?bad)" and co: "''datetime'' \<in> set (columns ?ok)"
    by simp_all
  have a1: "valid_date ?d1 \<and> row_date ?r1 = Inr (strftime_mdY ?d1) \<and>
      (map_of ?legacy (strftime_mdY ?d1) \<noteq> None \<or> dt_less run_time (midnight ?d1))"
    by code_simp
  have a2: "valid_date ?d2 \<and> row_date ?r2 = Inr (strftime_mdY ?d2) \<and>
      (map_of ?legacy (strftime_mdY ?d2) \<noteq> None \<or> dt_less run_time (midnight ?d2))"
    by code_simp
  have a3: "valid_date ?d3 \<and> row_date ?r3 = Inr (strftime_mdY ?d3) \<and>
      map_of ?legacy (strftime_mdY ?d3) = None \<and> \<not> dt_less run_time (midnight ?d3)"
    by code_simp
  have e: "row_date ?r1 = Inr ''4/5/2025''" "row_date ?r2 = Inr ''1/3/2027''"
    "row_date ?r3 = Inr ''4/12/2025''"
    by code_simp+
  have ok: "\<forall>r\<in>set (rows ?ok). \<exists>d. valid_date d \<and> row_date r = Inr (strftime_mdY d) \<and>
      (map_of ?legacy (strftime_mdY d) \<noteq> None \<or> dt_less run_time (midnight d))"
  proof
    fix r
    assume "r \<in> set (rows ?ok)"
    then consider "r = ?r1" | "r = ?r2" by auto
    then show "\<exists>d. valid_date d \<and> row_date r = Inr (strftime_mdY d) \<and>
      (map_of ?legacy (strftime_mdY d) \<noteq> None \<or> dt_less run_time (midnight d))"
    proof cases
      case 1
      then show ?thesis using a1 by blast
    next
      case 2
      then show ?thesis using a2 by blast
    qed
  qed
  have bad: "\<exists>r\<in>set (rows ?bad). \<exists>d. valid_date d \<and> row_date r = Inr (strftime_mdY d) \<and>
      map_of ?legacy (strftime_mdY d) = None \<and> \<not> dt_less run_time (midnight d)"
    using a3 by (intro bexI [of _ ?r3] exI [of _ ?d3]) simp_all
  have parse: "\<forall>r\<in>set (rows ?bad). \<exists>date. row_date r = Inr date"
    using e by simp
  have "\<exists>date. generate_migrated_opportunities run_time example_uuid 0 ?comb ?bad =
      Inl (SystemExit [''Not in opportunities'', date])"
    using validation_before_merge [OF run cb, where ?uuid4.0 = example_uuid and n = 0]
      bad parse by blast
  moreover have v: "generate_migrated_opportunities run_time example_uuid 0 ?comb ?bad =
      Inl (SystemExit [''Not in opportunities'', ''4/12/2025''])"
    by code_simp
  have p: "generate_migrated_opportunities run_time example_uuid 0 ?comb ?ok =
      append_missing run_time example_uuid ?legacy (?ok, 0)"
    using validation_before_merge [OF run co, where ?uuid4.0 = example_uuid and n = 0]
      ok by blast
  have t: "(case generate_migrated_opportunities run_time example_uuid 0 ?comb ?ok of
      Inl e \<Rightarrow> [] | Inr (df', k) \<Rightarrow> map (\<lambda>r. cell_of r ''title'') (rows df')) =
     [CNone, CNone, CStr ''seventh'', CStr ''Meal Prep'']"
    by code_simp
  show ?thesis using run e v p t by blast
qed

section \<open>The appending loop of the merge\<close>

text \<open>
  On a table that has the columns \<^verbatim>\<open>datetime\<close> and \<^verbatim>\<open>name\<close> the loop appends one row
  for each (date, label) pair, in the order of the map, for which none of the rows it was
  given has the date in its \<^verbatim>\<open>datetime\<close> text and the label as its \<^verbatim>\<open>name\<close>. The rows it
  writes carry the label as \<^verbatim>\<open>title\<close> and have no \<^verbatim>\<open>name\<close>, so they never count as a match.
\<close>

lemma new_row_cells:
  "cell_of (new_row uid nm d now) ''name'' = CNone"
  "cell_of (new_row uid nm d now) ''id'' = CStr uid"
  "cell_of (new_row uid nm d now) ''title'' = CStr nm"
  "cell_of (new_row uid nm d now) ''datetime'' = CStr (strftime_Ymd d @ '' 09:00:00-0500'')"
  "cell_of (new_row uid nm d now) ''location'' = CStr ''location coming soon''"
  "cell_of (new_row uid nm d now) ''description'' = CStr ''description coming soon''"
  "cell_of (new_row uid nm d now) ''start_time'' = CStr ''start time coming soon''"
  "cell_of (new_row uid nm d now) ''end_time'' = CStr ''end time coming soon''"
  "cell_of (new_row uid nm d now) ''spot_left'' = CInt 0"
  "cell_of (new_row uid nm d now) ''Ended'' = CStr ''t''"
  by (simp_all add: cell_of_def new_row_def)

lemma new_row_no_match: "\<not> row_matches date nm (new_row uid nm' d now)"
  by (simp add: row_matches_def new_row_cells(1))

lemma filter_matches_Nil:
  "(filter (row_matches date nm) rs = []) = (\<not> (\<exists>r\<in>set rs. row_matches date nm r))"
  by (auto simp: filter_empty_conv)

lemma df_concat_simps:
  "rows (df_concat df r) = rows df @ [r]"
  "c \<in> set (columns df) \<Longrightarrow> c \<in> set (columns (df_concat df r))"
  by (simp_all add: df_concat_def)

lemma synthesized_rows_append:
  "synthesized_rows now uuid4 n (a @ b) =
     synthesized_rows now uuid4 n a @ synthesized_rows now uuid4 (n + length a) b"
  by (induction a arbitrary: n) auto

lemma synthesized_rows_no_match:
  "r \<in> set (synthesized_rows now uuid4 n ps) \<Longrightarrow> \<not> row_matches date nm r"
  by (induction ps arbitrary: n) (auto simp: new_row_no_match)

lemma append_names_rows:
  assumes "''datetime'' \<in> set (columns df)" and "''name'' \<in> set (columns df)"
    and "names = [] \<or> (\<exists>d. strptime_mdY date = Inr d)"
    and "rows df = base @ extra" and "\<forall>r\<in>set extra. \<forall>nm. \<not> row_matches date nm r"
  shows "\<exists>df'. append_names now uuid4 date names (df, n) =
           Inr (df', n + length (filter (\<lambda>nm. \<not> (\<exists>r\<in>set base. row_matches date nm r))
                                  names)) \<and>
         rows df' = rows df @ synthesized_rows now uuid4 n
           (map (Pair date) (filter (\<lambda>nm. \<not> (\<exists>r\<in>set base. row_matches date nm r)) names)) \<and>
         ''datetime'' \<in> set (columns df') \<and> ''name'' \<in> set (columns df')"
  using assms
proof (induction names arbitrary: df n extra)
  case Nil
  then show ?case by simp
next
  case (Cons nm nms)
  from Cons.prems(3) obtain d where d: "strptime_mdY date = Inr d" by auto
  have m: "(\<exists>r\<in>set (rows df). row_matches date nm r) = (\<exists>r\<in>set base. row_matches date nm r)"
    using Cons.prems(4,5) by auto
  show ?case
  proof (cases "\<exists>r\<in>set base. row_matches date nm r")
    case True
    have "\<exists>df'. append_names now uuid4 date nms (df, n) =
           Inr (df', n + length (filter (\<lambda>nm. \<not> (\<exists>r\<in>set base. row_matches date nm r)) nms)) \<and>
         rows df' = rows df @ synthesized_rows now uuid4 n
           (map (Pair date) (filter (\<lambda>nm. \<not> (\<exists>r\<in>set base. row_matches date nm r)) nms)) \<and>
         ''datetime'' \<in> set (columns df') \<and> ''name'' \<in> set (columns df')"
      using Cons.IH [OF Cons.prems(1,2) _ Cons.prems(4,5)] d by blast
    then show ?thesis
      using True m Cons.prems(1,2) by (auto simp: filter_matches_Nil)
  next
    case False
    let ?r = "new_row (uuid4 n) nm d now"
    let ?df = "df_concat df ?r"
    have c: "''datetime'' \<in> set (columns ?df)" "''name'' \<in> set (columns ?df)"
      using Cons.prems(1,2) by (simp_all add: df_concat_simps)
    have r: "rows ?df = base @ (extra @ [?r])"
      using Cons.prems(4) by (simp add: df_concat_simps)
    have e: "\<forall>r\<in>set (extra @ [?r]). \<forall>nm. \<not> row_matches date nm r"
      using Cons.prems(5) new_row_no_match by auto
    have "\<exists>df'. append_names now uuid4 date nms (?df, Suc n) =
           Inr (df', Suc n + length (filter (\<lambda>nm. \<not> (\<exists>r\<in>set base. row_matches date nm r)) nms)) \<and>
         rows df' = rows ?df @ synthesized_rows now uuid4 (Suc n)
           (map (Pair date) (filter (\<lambda>nm. \<not> (\<exists>r\<in>set base. row_matches date nm r)) nms)) \<and>
         ''datetime'' \<in> set (columns df') \<and> ''name'' \<in> set (columns df')"
      using Cons.IH [OF c _ r e] d by blast
    then show ?thesis
      using False m Cons.prems(1,2) d by (auto simp: filter_matches_Nil df_concat_simps)
  qed
qed

lemma opportunity_pairs_Cons:
  "opportunity_pairs ((date, names) # items) = map (Pair date) names @ opportunity_pairs items"
  by (simp add: opportunity_pairs_def)

lemma filter_pairs_of_date:
  "filter (\<lambda>(date, nm). Q date nm) (map (Pair date) names) =
     map (Pair date) (filter (Q date) names)"
  by (induction names) auto

lemma append_missing_rows:
  assumes "''datetime'' \<in> set (columns df)" and "''name'' \<in> set (columns df)"
    and "\<forall>(date, names)\<in>set legacy. \<exists>d. strptime_mdY date = Inr d"
    and "rows df = base @ extra" and "\<forall>r\<in>set extra. \<forall>date nm. \<not> row_matches date nm r"
  shows "\<exists>df'. append_missing now uuid4 legacy (df, n) =
           Inr (df', n + length (filter (\<lambda>(date, nm). \<not> (\<exists>r\<in>set base. row_matches date nm r))
                                  (opportunity_pairs legacy))) \<and>
         rows df' = rows df @ synthesized_rows now uuid4 n
           (filter (\<lambda>(date, nm). \<not> (\<exists>r\<in>set base. row_matches date nm r))
              (opportunity_pairs legacy))"
  using assms
proof (induction legacy arbitrary: df n extra)
  case Nil
  then show ?case by (simp add: opportunity_pairs_def)
next
  case (Cons item items)
  obtain date names where item: "item = (date, names)" by (cases item)
  let ?Q = "\<lambda>date nm. \<not> (\<exists>r\<in>set base. row_matches date nm r)"
  let ?f1 = "filter (?Q date) names"
  let ?rest = "filter (\<lambda>(date, nm). ?Q date nm) (opportunity_pairs items)"
  have p: "names = [] \<or> (\<exists>d. strptime_mdY date = Inr d)"
    using Cons.prems(3) item by auto
  have e: "\<forall>r\<in>set extra. \<forall>nm. \<not> row_matches date nm r"
    using Cons.prems(5) by blast
  from append_names_rows [OF Cons.prems(1,2) p Cons.prems(4) e, of now uuid4 n]
  obtain df1 where
    s1: "append_names now uuid4 date names (df, n) = Inr (df1, n + length ?f1)"
    and r1: "rows df1 = rows df @ synthesized_rows now uuid4 n (map (Pair date) ?f1)"
    and c1: "''datetime'' \<in> set (columns df1)" "''name'' \<in> set (columns df1)"
    by blast
  have b1: "rows df1 = base @ (extra @ synthesized_rows now uuid4 n (map (Pair date) ?f1))"
    using r1 Cons.prems(4) by simp
  have e1: "\<forall>r\<in>set (extra @ synthesized_rows now uuid4 n (map (Pair date) ?f1)).
      \<forall>date nm. \<not> row_matches date nm r"
    using Cons.prems(5) synthesized_rows_no_match by auto
  have k: "\<forall>(date, names)\<in>set items. \<exists>d. strptime_mdY date = Inr d"
    using Cons.prems(3) by simp
  from Cons.IH [OF c1 k b1 e1, of "n + length ?f1"]
  obtain df2 where
    s2: "append_missing now uuid4 items (df1, n + length ?f1) =
           Inr (df2, n + length ?f1 + length ?rest)"
    and r2: "rows df2 = rows df1 @ synthesized_rows now uuid4 (n + length ?f1) ?rest"
    by blast
  have f: "filter (\<lambda>(date, nm). ?Q date nm) (opportunity_pairs (item # items)) =
      map (Pair date) ?f1 @ ?rest"
    by (simp add: item opportunity_pairs_Cons filter_pairs_of_date)
  have "append_missing now uuid4 (item # items) (df, n) =
      Inr (df2, n + length (map (Pair date) ?f1 @ ?rest))"
    using s1 s2 by (simp add: item)
  moreover have "rows df2 = rows df @ synthesized_rows now uuid4 n (map (Pair date) ?f1 @ ?rest)"
    using r1 r2 by (simp add: synthesized_rows_append)
  ultimately show ?case unfolding f by blast
qed

section \<open>The column read by the test of the merge\<close>

text \<open>
  C2. For each (date, label) pair of the map the merge is to append one row, the label as
  its title, unless a row of the table already has the date and the label. The test
  reads the label of the existing rows from a column \<^verbatim>\<open>name\<close>, while the rows of the table
  (those the merge writes among them) carry it as \<^verbatim>\<open>title\<close>. On a table with exactly the
  columns of the written rows, holding one opportunity of 4/5/2025, the map of the run is
  4/5/2025 with seventh and Meal Prep, the validation pass succeeds, and the merge ends
  with the lookup error of \<^verbatim>\<open>name\<close> at the first pair: no row is appended for Meal Prep,
  which no row of the table has.
\<close>

theorem merge_reads_name_column:
  "get_legacy_opportunities run_time (sheets_with [''Volunteers:'', ''4/5/2025'']) =
     Inr [(''4/5/2025'', [''seventh'', ''Meal Prep''])] \<and>
   check_rows run_time [(''4/5/2025'', [''seventh'', ''Meal Prep''])]
     (columns exported_opportunities) (rows exported_opportunities) = Inr () \<and>
   generate_migrated_opportunities run_time example_uuid 0
     (sheets_with [''Volunteers:'', ''4/5/2025'']) exported_opportunities =
     Inl (KeyError ''name'')"
  by (intro conjI; code_simp)

section \<open>Running the merge on its own output\<close>

text \<open>
  C3. The merge is to append nothing when it is run again on the table it produced. On a
  table with the column \<^verbatim>\<open>name\<close> and one opportunity of 4/5/2025 named seventh, the first
  run appends a row for seventh and a row for Meal Prep: the \<^verbatim>\<open>datetime\<close> text
  \<^verbatim>\<open>2025-04-05 09:00:00-0500\<close> does not contain \<^verbatim>\<open>4/5/2025\<close>. The second run, on the table of
  the first, appends both rows once more, with the next two identifiers.
\<close>

theorem second_run_appends_again:
  "generate_migrated_opportunities run_time example_uuid 0
     (sheets_with [''Volunteers:'', ''4/5/2025'']) named_opportunities =
     Inr (\<lparr>columns = columns opportunities_csv,
           rows = rows named_opportunities @
             [new_row (example_uuid 0) ''seventh'' \<lparr>year = 2025, month = 4, day = 5\<rparr> run_time,
              new_row (example_uuid 1) ''Meal Prep'' \<lparr>year = 2025, month = 4, day = 5\<rparr>
                run_time]\<rparr>, 2) \<and>
   generate_migrated_opportunities run_time example_uuid 2
     (sheets_with [''Volunteers:'', ''4/5/2025''])
     \<lparr>columns = columns opportunities_csv,
      rows = rows named_opportunities @
        [new_row (example_uuid 0) ''seventh'' \<lparr>year = 2025, month = 4, day = 5\<rparr> run_time,
         new_row (example_uuid 1) ''Meal Prep'' \<lparr>year = 2025, month = 4, day = 5\<rparr>
           run_time]\<rparr> =
     Inr (\<lparr>columns = columns opportunities_csv,
           rows = rows named_opportunities @
             [new_row (example_uuid 0) ''seventh'' \<lparr>year = 2025, month = 4, day = 5\<rparr> run_time,
              new_row (example_uuid 1) ''Meal Prep'' \<lparr>year = 2025, month = 4, day = 5\<rparr>
                run_time,
              new_row (example_uuid 2) ''seventh'' \<lparr>year = 2025, month = 4, day = 5\<rparr> run_time,
              new_row (example_uuid 3) ''Meal Prep'' \<lparr>year = 2025, month = 4, day = 5\<rparr>
                run_time]\<rparr>, 4)"
  by (intro conjI; code_simp)

end
